theory Spec2Isabelle
  imports Complex_Main
begin

text \<open>
  A model of the Go package \<open>matf64\<close>: element-wise arithmetic on a \<open>[][]float64\<close> in
  place (arithmatic.go), construction, transpose, the reductions \<open>Sum\<close>, \<open>Prod\<close>, \<open>Avg\<close>,
  the matrix product \<open>Dot\<close>, and the reducer factory \<open>NewReducer\<close>.  A function that
  changes its argument returns the argument as the call leaves it; a panic is a value.
\<close>

section \<open>The element type: Go's float64\<close>

text \<open>
  A \<open>float64\<close> is an IEEE 754 binary64 value: a NaN, a signed infinity, or a signed finite
  number.  A finite number is kept as its sign (\<open>True\<close> for negative) and its magnitude, a
  non-negative rational, so that \<open>Finite True 0\<close> is the negative zero.  NaN payloads are
  not distinguished.
\<close>

datatype float64 = NaN | Infty bool | Finite bool rat

definition pow2 :: "int \<Rightarrow> rat" where
  "pow2 e = (if 0 \<le> e then 2 ^ nat e else 1 / 2 ^ nat (- e))"

function bit_length :: "int \<Rightarrow> int" where
  "bit_length n = (if n \<le> 0 then 0 else 1 + bit_length (n div 2))"
  by pat_completeness auto
termination
  by (relation "measure nat") auto

declare bit_length.simps [simp del]

text \<open>\<open>ilog2 a\<close> is the integer \<open>k\<close> with \<open>2^k \<le> a < 2^(k+1)\<close>, for a positive \<open>a\<close>.\<close>

definition ilog2 :: "rat \<Rightarrow> int" where
  "ilog2 a = (case quotient_of a of (n, d) \<Rightarrow>
     (let k = bit_length n - bit_length d
      in if pow2 k \<le> a then k else k - 1))"

definition round_half_even :: "rat \<Rightarrow> int" where
  "round_half_even q = (let f = \<lfloor>q\<rfloor>; r = q - of_int f
     in if r < 1 / 2 then f else if 1 / 2 < r then f + 1 else if even f then f else f + 1)"

text \<open>
  Rounding of an exact magnitude to binary64, to nearest with ties to even: 53 significant
  bits, the least exponent of a unit in the last place is \<open>-1074\<close> (subnormal numbers), and
  a result of \<open>2^1024\<close> or more (\<open>1024 \<le> ilog2 r\<close>) overflows to the infinity of the same sign.
\<close>

definition round64 :: "bool \<Rightarrow> rat \<Rightarrow> float64" where
  "round64 s a = (if a = 0 then Finite s 0 else
     (let p = max (ilog2 a - 52) (- 1074);
          n = round_half_even (a / pow2 p);
          r = of_int n * pow2 p
      in if 1024 \<le> ilog2 r then Infty s else Finite s r))"

definition signed :: "bool \<Rightarrow> rat \<Rightarrow> rat" where
  "signed s a = (if s then - a else a)"

text \<open>The values a program can hold: the finite ones are fixed points of the rounding.\<close>

definition is_float64 :: "float64 \<Rightarrow> bool" where
  "is_float64 x = (case x of Finite s a \<Rightarrow> 0 \<le> a \<and> round64 s a = Finite s a | _ \<Rightarrow> True)"

definition fzero :: float64 where
  "fzero = Finite False 0"

definition fone :: float64 where
  "fone = Finite False 1"

fun fneg :: "float64 \<Rightarrow> float64" where
  "fneg NaN = NaN"
| "fneg (Infty s) = Infty (\<not> s)"
| "fneg (Finite s a) = Finite (\<not> s) a"

text \<open>Go's \<open>x + y\<close>: an exact zero sum is \<open>+0\<close> unless both operands are negative zeros.\<close>

fun fadd :: "float64 \<Rightarrow> float64 \<Rightarrow> float64" where
  "fadd NaN y = NaN"
| "fadd x NaN = NaN"
| "fadd (Infty s) (Infty t) = (if s = t then Infty s else NaN)"
| "fadd (Infty s) (Finite t b) = Infty s"
| "fadd (Finite s a) (Infty t) = Infty t"
| "fadd (Finite s a) (Finite t b) =
     (let q = signed s a + signed t b
      in if q = 0 then Finite (s \<and> t) 0 else round64 (q < 0) \<bar>q\<bar>)"

definition fsub :: "float64 \<Rightarrow> float64 \<Rightarrow> float64" where
  "fsub x y = fadd x (fneg y)"

fun fmul :: "float64 \<Rightarrow> float64 \<Rightarrow> float64" where
  "fmul NaN y = NaN"
| "fmul x NaN = NaN"
| "fmul (Infty s) (Infty t) = Infty (s \<noteq> t)"
| "fmul (Infty s) (Finite t b) = (if b = 0 then NaN else Infty (s \<noteq> t))"
| "fmul (Finite s a) (Infty t) = (if a = 0 then NaN else Infty (s \<noteq> t))"
| "fmul (Finite s a) (Finite t b) = round64 (s \<noteq> t) (a * b)"

text \<open>Go's \<open>x / y\<close> on float64 never panics: a zero divisor gives an infinity or NaN.\<close>

fun fdiv :: "float64 \<Rightarrow> float64 \<Rightarrow> float64" where
  "fdiv NaN y = NaN"
| "fdiv x NaN = NaN"
| "fdiv (Infty s) (Infty t) = NaN"
| "fdiv (Infty s) (Finite t b) = Infty (s \<noteq> t)"
| "fdiv (Finite s a) (Infty t) = Finite (s \<noteq> t) 0"
| "fdiv (Finite s a) (Finite t b) =
     (if b = 0 then (if a = 0 then NaN else Infty (s \<noteq> t))
      else round64 (s \<noteq> t) (a / b))"

text \<open>Go's \<open>x == y\<close>: NaN equals nothing, and the two zeros are equal.\<close>

fun feq :: "float64 \<Rightarrow> float64 \<Rightarrow> bool" where
  "feq (Finite s a) (Finite t b) = (signed s a = signed t b)"
| "feq (Infty s) (Infty t) = (s = t)"
| "feq x y = False"

text \<open>The conversion \<open>float64(n)\<close> of an \<open>int\<close>.\<close>

definition float64_of_int :: "int \<Rightarrow> float64" where
  "float64_of_int n = round64 (n < 0) \<bar>of_int n\<bar>"

section \<open>Grids, panics and loops\<close>

text \<open>
  A Grid is a \<open>[][]float64\<close>, a Vector a \<open>[]float64\<close>.  In this part they are values,
  lists of rows: that describes the calls in which the rows of a Grid share no storage
  with each other or with the right operand, as is the case for every Grid made by
  \<open>New\<close>.  The functions that only read their arguments, or write to a Grid they made
  themselves, behave the same when storage is shared.  The arithmetic kernels do not:
  they are modelled a second time, on an explicit store, in the section on shared
  storage, and the statements about the values they leave are made there.
\<close>

type_synonym vec = "float64 list"
type_synonym grid = "float64 list list"

text \<open>
  What a call can panic with: the run-time errors of indexing and of \<open>make\<close>, and the
  three messages the package builds with \<open>fmt.Sprintf\<close>, kept as the operation name
  (\<open>%s\<close>) and the value reported (\<open>%T\<close> or \<open>%d\<close>).
\<close>

datatype panic =
    IndexOutOfRange
  | MakeSliceLenOutOfRange
  | BadOperand string string
  | BadArity string nat
  | BadAxis string int

text \<open>
  \<open>for i := range xs { body }\<close> is \<open>for_range [0..<length xs] body\<close>: the body is run
  on each index in turn, threading the state; a panic stops the loop and leaves the state
  as it was at that moment.
\<close>

primrec for_range :: "nat list \<Rightarrow> (nat \<Rightarrow> 's \<Rightarrow> 's \<times> panic option) \<Rightarrow> 's \<Rightarrow> 's \<times> panic option" where
  "for_range [] body s = (s, None)"
| "for_range (i # is) body s =
     (case body i s of
        (s', None) \<Rightarrow> for_range is body s'
      | (s', Some e) \<Rightarrow> (s', Some e))"

definition returned :: "'s \<times> panic option \<Rightarrow> panic + 's" where
  "returned r = (case r of (s, None) \<Rightarrow> Inr s | (s, Some e) \<Rightarrow> Inl e)"

text \<open>The read \<open>xs[k]\<close> with an \<open>int\<close> index, and the read \<open>m[i][j]\<close>.\<close>

definition index :: "'a list \<Rightarrow> int \<Rightarrow> panic + 'a" where
  "index xs k = (if 0 \<le> k \<and> k < int (length xs) then Inr (xs ! nat k) else Inl IndexOutOfRange)"

definition index2 :: "grid \<Rightarrow> nat \<Rightarrow> nat \<Rightarrow> panic + float64" where
  "index2 m i j = (if i < length m \<and> j < length (m ! i) then Inr (m ! i ! j) else Inl IndexOutOfRange)"

text \<open>The in-place update \<open>m[i][j] = g(m[i][j])\<close>.\<close>

definition update_at :: "nat \<Rightarrow> nat \<Rightarrow> (float64 \<Rightarrow> float64) \<Rightarrow> grid \<Rightarrow> grid \<times> panic option" where
  "update_at i j g m =
     (if i < length m \<and> j < length (m ! i)
      then (m[i := (m ! i)[j := g (m ! i ! j)]], None)
      else (m, Some IndexOutOfRange))"

section \<open>Element-wise arithmetic kernels (arithmatic.go)\<close>

text \<open>
  The twelve kernels are four copies of three loops that differ in the operator only.
  Each returns the Grid as the call leaves it, and the panic if there was one.
\<close>

definition scalar_kernel :: "(float64 \<Rightarrow> float64 \<Rightarrow> float64) \<Rightarrow> grid \<Rightarrow> float64 \<Rightarrow> grid \<times> panic option" where
  "scalar_kernel opr m v =
     for_range [0..<length m] (\<lambda>i m.
       for_range [0..<length (m ! i)] (\<lambda>j. update_at i j (\<lambda>x. opr x v)) m) m"

definition vec_kernel :: "(float64 \<Rightarrow> float64 \<Rightarrow> float64) \<Rightarrow> grid \<Rightarrow> vec \<Rightarrow> grid \<times> panic option" where
  "vec_kernel opr m v =
     for_range [0..<length m] (\<lambda>i.
       for_range [0..<length v] (\<lambda>j. update_at i j (\<lambda>x. opr x (v ! j)))) m"

definition mat_kernel :: "(float64 \<Rightarrow> float64 \<Rightarrow> float64) \<Rightarrow> grid \<Rightarrow> grid \<Rightarrow> grid \<times> panic option" where
  "mat_kernel opr m v =
     for_range [0..<length m] (\<lambda>i m.
       for_range [0..<length (m ! i)] (\<lambda>j m.
         (case index2 v i j of
            Inl e \<Rightarrow> (m, Some e)
          | Inr y \<Rightarrow> update_at i j (\<lambda>x. opr x y) m)) m) m"

definition MultScalar :: "grid \<Rightarrow> float64 \<Rightarrow> grid \<times> panic option" where
  "MultScalar = scalar_kernel fmul"

definition MultVec :: "grid \<Rightarrow> vec \<Rightarrow> grid \<times> panic option" where
  "MultVec = vec_kernel fmul"

definition MultMat :: "grid \<Rightarrow> grid \<Rightarrow> grid \<times> panic option" where
  "MultMat = mat_kernel fmul"

definition AddScalar :: "grid \<Rightarrow> float64 \<Rightarrow> grid \<times> panic option" where
  "AddScalar = scalar_kernel fadd"

definition AddVec :: "grid \<Rightarrow> vec \<Rightarrow> grid \<times> panic option" where
  "AddVec = vec_kernel fadd"

definition AddMat :: "grid \<Rightarrow> grid \<Rightarrow> grid \<times> panic option" where
  "AddMat = mat_kernel fadd"

definition SubScalar :: "grid \<Rightarrow> float64 \<Rightarrow> grid \<times> panic option" where
  "SubScalar = scalar_kernel fsub"

definition SubVec :: "grid \<Rightarrow> vec \<Rightarrow> grid \<times> panic option" where
  "SubVec = vec_kernel fsub"

definition SubMat :: "grid \<Rightarrow> grid \<Rightarrow> grid \<times> panic option" where
  "SubMat = mat_kernel fsub"

definition DivScalar :: "grid \<Rightarrow> float64 \<Rightarrow> grid \<times> panic option" where
  "DivScalar = scalar_kernel fdiv"

definition DivVec :: "grid \<Rightarrow> vec \<Rightarrow> grid \<times> panic option" where
  "DivVec = vec_kernel fdiv"

definition DivMat :: "grid \<Rightarrow> grid \<Rightarrow> grid \<times> panic option" where
  "DivMat = mat_kernel fdiv"

text \<open>
  The operand of a dispatcher is an \<open>interface{}\<close>: one of the three types of the type
  switch, or a value of any other type, kept as the name \<open>%T\<close> prints.
\<close>

datatype operand = Scalar float64 | Vector vec | Matrix grid | Other string

definition Mult :: "grid \<Rightarrow> operand \<Rightarrow> grid \<times> panic option" where
  "Mult m val = (case val of
       Scalar v \<Rightarrow> MultScalar m v
     | Vector v \<Rightarrow> MultVec m v
     | Matrix v \<Rightarrow> MultMat m v
     | Other ty \<Rightarrow> (m, Some (BadOperand ''Mult()'' ty)))"

definition Add :: "grid \<Rightarrow> operand \<Rightarrow> grid \<times> panic option" where
  "Add m val = (case val of
       Scalar v \<Rightarrow> AddScalar m v
     | Vector v \<Rightarrow> AddVec m v
     | Matrix v \<Rightarrow> AddMat m v
     | Other ty \<Rightarrow> (m, Some (BadOperand ''Add()'' ty)))"

definition Sub :: "grid \<Rightarrow> operand \<Rightarrow> grid \<times> panic option" where
  "Sub m val = (case val of
       Scalar v \<Rightarrow> SubScalar m v
     | Vector v \<Rightarrow> SubVec m v
     | Matrix v \<Rightarrow> SubMat m v
     | Other ty \<Rightarrow> (m, Some (BadOperand ''Sub()'' ty)))"

definition Div :: "grid \<Rightarrow> operand \<Rightarrow> grid \<times> panic option" where
  "Div m val = (case val of
       Scalar v \<Rightarrow> DivScalar m v
     | Vector v \<Rightarrow> DivVec m v
     | Matrix v \<Rightarrow> DivMat m v
     | Other ty \<Rightarrow> (m, Some (BadOperand ''Div()'' ty)))"

section \<open>The kernels on shared storage\<close>

text \<open>
  A \<open>[]float64\<close> is a window on storage: where its first element lies and how many
  elements it has (its capacity plays no part, since no kernel appends).  Two rows of a
  \<open>[][]float64\<close>, or a row and a vector operand, may be windows on the same cells.  The
  kernels write into the rows and read the operand while they run, so what they leave
  depends on that sharing.  Here the cells are an explicit store, a Grid is the list of
  its rows' windows, and the kernels pass the store along.  The windows themselves are
  not written by any kernel.
\<close>

record slice =
  ptr :: nat
  len :: nat

type_synonym store = "nat \<Rightarrow> float64"

text \<open>
  Two windows are apart when they have no cell in common; the windows of a list are
  separate when any two of them, at different positions, are apart.
\<close>

definition apart :: "slice \<Rightarrow> slice \<Rightarrow> bool" where
  "apart s t = (ptr s + len s \<le> ptr t \<or> ptr t + len t \<le> ptr s \<or> len s = 0 \<or> len t = 0)"

fun separate :: "slice list \<Rightarrow> bool" where
  "separate [] = True"
| "separate (s # ss) = ((\<forall>t\<in>set ss. apart s t) \<and> separate ss)"

text \<open>The elements a window shows in a store, and the Grid a list of windows shows.\<close>

definition row_of :: "store \<Rightarrow> slice \<Rightarrow> vec" where
  "row_of \<sigma> s = map (\<lambda>j. \<sigma> (ptr s + j)) [0..<len s]"

definition grid_of :: "store \<Rightarrow> slice list \<Rightarrow> grid" where
  "grid_of \<sigma> m = map (row_of \<sigma>) m"

text \<open>A store that holds the given values from address 0 on.\<close>

definition store_of :: "float64 list \<Rightarrow> store" where
  "store_of xs = (\<lambda>a. if a < length xs then xs ! a else fzero)"

text \<open>The in-place update \<open>s[j] = g(s[j])\<close>, with Go's bounds check.\<close>

definition modify :: "slice \<Rightarrow> nat \<Rightarrow> (float64 \<Rightarrow> float64) \<Rightarrow> store \<Rightarrow> store \<times> panic option" where
  "modify s j g \<sigma> =
     (if j < len s then (\<sigma>(ptr s + j := g (\<sigma> (ptr s + j))), None)
      else (\<sigma>, Some IndexOutOfRange))"

text \<open>
  The three loops of arithmatic.go again.  The vector kernel reads \<open>v[j]\<close>, and the
  Grid kernel \<open>v[i][j]\<close>, from the store as it is when the element is combined.
\<close>

definition scalar_kernel_store ::
  "(float64 \<Rightarrow> float64 \<Rightarrow> float64) \<Rightarrow> slice list \<Rightarrow> float64 \<Rightarrow> store \<Rightarrow> store \<times> panic option" where
  "scalar_kernel_store opr m v =
     for_range [0..<length m] (\<lambda>i.
       for_range [0..<len (m ! i)] (\<lambda>j. modify (m ! i) j (\<lambda>x. opr x v)))"

definition vec_kernel_store ::
  "(float64 \<Rightarrow> float64 \<Rightarrow> float64) \<Rightarrow> slice list \<Rightarrow> slice \<Rightarrow> store \<Rightarrow> store \<times> panic option" where
  "vec_kernel_store opr m v =
     for_range [0..<length m] (\<lambda>i.
       for_range [0..<len v] (\<lambda>j \<sigma>. modify (m ! i) j (\<lambda>x. opr x (\<sigma> (ptr v + j))) \<sigma>))"

definition mat_kernel_store ::
  "(float64 \<Rightarrow> float64 \<Rightarrow> float64) \<Rightarrow> slice list \<Rightarrow> slice list \<Rightarrow> store \<Rightarrow> store \<times> panic option" where
  "mat_kernel_store opr m v =
     for_range [0..<length m] (\<lambda>i.
       for_range [0..<len (m ! i)] (\<lambda>j \<sigma>.
         if i < length v \<and> j < len (v ! i)
         then modify (m ! i) j (\<lambda>x. opr x (\<sigma> (ptr (v ! i) + j))) \<sigma>
         else (\<sigma>, Some IndexOutOfRange)))"

definition MultScalar_store :: "slice list \<Rightarrow> float64 \<Rightarrow> store \<Rightarrow> store \<times> panic option" where
  "MultScalar_store = scalar_kernel_store fmul"

definition MultVec_store :: "slice list \<Rightarrow> slice \<Rightarrow> store \<Rightarrow> store \<times> panic option" where
  "MultVec_store = vec_kernel_store fmul"

definition MultMat_store :: "slice list \<Rightarrow> slice list \<Rightarrow> store \<Rightarrow> store \<times> panic option" where
  "MultMat_store = mat_kernel_store fmul"

definition AddScalar_store :: "slice list \<Rightarrow> float64 \<Rightarrow> store \<Rightarrow> store \<times> panic option" where
  "AddScalar_store = scalar_kernel_store fadd"

definition AddVec_store :: "slice list \<Rightarrow> slice \<Rightarrow> store \<Rightarrow> store \<times> panic option" where
  "AddVec_store = vec_kernel_store fadd"

definition AddMat_store :: "slice list \<Rightarrow> slice list \<Rightarrow> store \<Rightarrow> store \<times> panic option" where
  "AddMat_store = mat_kernel_store fadd"

definition SubScalar_store :: "slice list \<Rightarrow> float64 \<Rightarrow> store \<Rightarrow> store \<times> panic option" where
  "SubScalar_store = scalar_kernel_store fsub"

definition SubVec_store :: "slice list \<Rightarrow> slice \<Rightarrow> store \<Rightarrow> store \<times> panic option" where
  "SubVec_store = vec_kernel_store fsub"

definition SubMat_store :: "slice list \<Rightarrow> slice list \<Rightarrow> store \<Rightarrow> store \<times> panic option" where
  "SubMat_store = mat_kernel_store fsub"

definition DivScalar_store :: "slice list \<Rightarrow> float64 \<Rightarrow> store \<Rightarrow> store \<times> panic option" where
  "DivScalar_store = scalar_kernel_store fdiv"

definition DivVec_store :: "slice list \<Rightarrow> slice \<Rightarrow> store \<Rightarrow> store \<times> panic option" where
  "DivVec_store = vec_kernel_store fdiv"

definition DivMat_store :: "slice list \<Rightarrow> slice list \<Rightarrow> store \<Rightarrow> store \<times> panic option" where
  "DivMat_store = mat_kernel_store fdiv"

datatype operand_store =
  ScalarArg float64 | VectorArg slice | MatrixArg "slice list" | OtherArg string

definition Mult_store :: "slice list \<Rightarrow> operand_store \<Rightarrow> store \<Rightarrow> store \<times> panic option" where
  "Mult_store m val \<sigma> = (case val of
       ScalarArg v \<Rightarrow> MultScalar_store m v \<sigma>
     | VectorArg v \<Rightarrow> MultVec_store m v \<sigma>
     | MatrixArg v \<Rightarrow> MultMat_store m v \<sigma>
     | OtherArg ty \<Rightarrow> (\<sigma>, Some (BadOperand ''Mult()'' ty)))"

definition Add_store :: "slice list \<Rightarrow> operand_store \<Rightarrow> store \<Rightarrow> store \<times> panic option" where
  "Add_store m val \<sigma> = (case val of
       ScalarArg v \<Rightarrow> AddScalar_store m v \<sigma>
     | VectorArg v \<Rightarrow> AddVec_store m v \<sigma>
     | MatrixArg v \<Rightarrow> AddMat_store m v \<sigma>
     | OtherArg ty \<Rightarrow> (\<sigma>, Some (BadOperand ''Add()'' ty)))"

definition Sub_store :: "slice list \<Rightarrow> operand_store \<Rightarrow> store \<Rightarrow> store \<times> panic option" where
  "Sub_store m val \<sigma> = (case val of
       ScalarArg v \<Rightarrow> SubScalar_store m v \<sigma>
     | VectorArg v \<Rightarrow> SubVec_store m v \<sigma>
     | MatrixArg v \<Rightarrow> SubMat_store m v \<sigma>
     | OtherArg ty \<Rightarrow> (\<sigma>, Some (BadOperand ''Sub()'' ty)))"

definition Div_store :: "slice list \<Rightarrow> operand_store \<Rightarrow> store \<Rightarrow> store \<times> panic option" where
  "Div_store m val \<sigma> = (case val of
       ScalarArg v \<Rightarrow> DivScalar_store m v \<sigma>
     | VectorArg v \<Rightarrow> DivVec_store m v \<sigma>
     | MatrixArg v \<Rightarrow> DivMat_store m v \<sigma>
     | OtherArg ty \<Rightarrow> (\<sigma>, Some (BadOperand ''Div()'' ty)))"

text \<open>
  \<open>written m k a\<close>: the address \<open>a\<close> is a cell of one of the first \<open>k\<close> rows of \<open>m\<close>.
\<close>

definition written :: "slice list \<Rightarrow> nat \<Rightarrow> nat \<Rightarrow> bool" where
  "written m k a = (\<exists>i<k. \<exists>j<len (m ! i). a = ptr (m ! i) + j)"

section \<open>Construction, transpose, reductions and the matrix product\<close>

text \<open>
  \<open>New(dims...)\<close>: \<open>make\<close> panics on a negative length; with two dimensions the rows are
  made inside the loop over the outer slice, so a negative column count panics only when
  there is at least one row.
\<close>

definition New :: "int list \<Rightarrow> panic + grid" where
  "New dims =
     (if length dims = 1 then
        (let r = dims ! 0
         in if r < 0 then Inl MakeSliceLenOutOfRange
            else Inr (replicate (nat r) (replicate (nat r) fzero)))
      else if length dims = 2 then
        (let r = dims ! 0; c = dims ! 1
         in if r < 0 then Inl MakeSliceLenOutOfRange
            else if 0 < r \<and> c < 0 then Inl MakeSliceLenOutOfRange
            else Inr (replicate (nat r) (replicate (nat c) fzero)))
      else Inl (BadArity ''New()'' (length dims)))"

definition T :: "grid \<Rightarrow> panic + grid" where
  "T m =
     (if m = [] then Inl IndexOutOfRange
      else (case New [int (length (m ! 0)), int (length m)] of
              Inl e \<Rightarrow> Inl e
            | Inr n \<Rightarrow>
                returned (for_range [0..<length m] (\<lambda>i.
                  for_range [0..<length (m ! i)] (\<lambda>j. update_at j i (\<lambda>_. m ! i ! j))) n)))"

text \<open>
  The loops of the reductions read \<open>m\<close> only; their state is the accumulator.  The
  trailing arguments are Go \<open>int\<close>s, modelled by the integers: the one sum computed on
  them, \<open>len(m) + x\<close> or \<open>len(m[0]) + x\<close> with \<open>x < 0\<close>, cannot leave the range of a
  64-bit \<open>int\<close>.  The two branches of \<open>if x >= 0\<close> differ in the index they read only,
  so each loop is written once, with the index chosen by that test.
\<close>

definition Sum :: "grid \<Rightarrow> int list \<Rightarrow> panic + float64" where
  "Sum m args =
     (if length args = 0 then
        returned (for_range [0..<length m] (\<lambda>i.
          for_range [0..<length (m ! i)] (\<lambda>j acc. (fadd acc (m ! i ! j), None))) fzero)
      else if length args = 2 then
        (if args ! 0 = 0 then
           (let x = args ! 1
            in case index m (if 0 \<le> x then x else int (length m) + x) of
                 Inl e \<Rightarrow> Inl e
               | Inr row \<Rightarrow>
                   returned (for_range [0..<length row] (\<lambda>i acc. (fadd acc (row ! i), None)) fzero))
         else if args ! 0 = 1 then
           (let x = args ! 1
            in returned (for_range [0..<length m] (\<lambda>i acc.
                 (case index (m ! i) (if 0 \<le> x then x else int (length (m ! 0)) + x) of
                    Inl e \<Rightarrow> (acc, Some e)
                  | Inr y \<Rightarrow> (fadd acc y, None))) fzero))
         else Inl (BadAxis ''Sum()'' (args ! 0)))
      else Inl (BadArity ''Sum()'' (length args)))"

definition Prod :: "grid \<Rightarrow> int list \<Rightarrow> panic + float64" where
  "Prod m args =
     (if length args = 0 then
        returned (for_range [0..<length m] (\<lambda>i.
          for_range [0..<length (m ! i)] (\<lambda>j acc. (fmul acc (m ! i ! j), None))) fone)
      else if length args = 2 then
        (if args ! 0 = 0 then
           (let x = args ! 1
            in case index m (if 0 \<le> x then x else int (length m) + x) of
                 Inl e \<Rightarrow> Inl e
               | Inr row \<Rightarrow>
                   returned (for_range [0..<length row] (\<lambda>i acc. (fmul acc (row ! i), None)) fone))
         else if args ! 0 = 1 then
           (let x = args ! 1
            in returned (for_range [0..<length m] (\<lambda>i acc.
                 (case index (m ! i) (if 0 \<le> x then x else int (length (m ! 0)) + x) of
                    Inl e \<Rightarrow> (acc, Some e)
                  | Inr y \<Rightarrow> (fmul acc y, None))) fone))
         else Inl (BadAxis ''Prod()'' (args ! 0)))
      else Inl (BadArity ''Prod()'' (length args)))"

text \<open>
  \<open>Avg\<close> keeps the pair of \<open>sum\<close> (written \<open>acc\<close>) and \<open>numItems\<close>; after the switch it returns
  \<open>sum / float64(numItems)\<close>, with no test of \<open>numItems\<close>.
\<close>

definition Avg :: "grid \<Rightarrow> int list \<Rightarrow> panic + float64" where
  "Avg m args =
     (case
        (if length args = 0 then
           returned (for_range [0..<length m] (\<lambda>i.
             for_range [0..<length (m ! i)] (\<lambda>j (acc, numItems).
               ((fadd acc (m ! i ! j), numItems + 1), None))) (fzero, 0::int))
         else if length args = 2 then
           (if args ! 0 = 0 then
              (let x = args ! 1
               in case index m (if 0 \<le> x then x else int (length m) + x) of
                    Inl e \<Rightarrow> Inl e
                  | Inr row \<Rightarrow>
                      (case returned (for_range [0..<length row]
                                (\<lambda>i acc. (fadd acc (row ! i), None)) fzero) of
                         Inl e \<Rightarrow> Inl e
                       | Inr acc \<Rightarrow> Inr (acc, int (length row))))
            else if args ! 0 = 1 then
              (let x = args ! 1
               in case returned (for_range [0..<length m] (\<lambda>i acc.
                         (case index (m ! i) (if 0 \<le> x then x else int (length (m ! 0)) + x) of
                            Inl e \<Rightarrow> (acc, Some e)
                          | Inr y \<Rightarrow> (fadd acc y, None))) fzero) of
                    Inl e \<Rightarrow> Inl e
                  | Inr acc \<Rightarrow> Inr (acc, int (length m)))
            else Inl (BadAxis ''Avg()'' (args ! 0)))
         else Inl (BadArity ''Avg()'' (length args)))
      of Inl e \<Rightarrow> Inl e
       | Inr (acc, numItems) \<Rightarrow> Inr (fdiv acc (float64_of_int numItems)))"

definition Dot :: "grid \<Rightarrow> grid \<Rightarrow> panic + grid" where
  "Dot m n =
     (if n = [] then Inl IndexOutOfRange
      else (case New [int (length m), int (length (n ! 0))] of
              Inl e \<Rightarrow> Inl e
            | Inr res \<Rightarrow>
                returned (for_range [0..<length m] (\<lambda>i.
                  for_range [0..<length (n ! 0)] (\<lambda>j.
                    for_range [0..<length (m ! i)] (\<lambda>k res.
                      (case index2 n k j of
                         Inl e \<Rightarrow> (res, Some e)
                       | Inr y \<Rightarrow> update_at i j (\<lambda>x. fadd x (fmul (m ! i ! k) y)) res)))) res)))"

section \<open>The reducer factory\<close>

text \<open>
  A \<open>BinaryFn\<close> receives two pointers and may write through both: it is a function from
  the two values pointed to, to the two values it leaves there.  The closure that
  \<open>NewReducer\<close> returns captures the variable \<open>initialValue\<close> and the function \<open>f\<close>; the
  record is that closure's environment.  A call passes \<open>&initialValue\<close> and \<open>&m[i][j]\<close>
  to \<open>f\<close> for each element and returns \<open>initialValue\<close>; it yields the result, the closure
  as the call leaves it, and the Grid as the call leaves it.
\<close>

type_synonym BinaryFn = "float64 \<times> float64 \<Rightarrow> float64 \<times> float64"

record ReducerFn =
  initialValue :: float64
  f :: BinaryFn

definition NewReducer :: "float64 \<Rightarrow> BinaryFn \<Rightarrow> ReducerFn" where
  "NewReducer a g = \<lparr>initialValue = a, f = g\<rparr>"

definition call :: "ReducerFn \<Rightarrow> grid \<Rightarrow> float64 \<times> ReducerFn \<times> grid" where
  "call red m =
     (case for_range [0..<length m] (\<lambda>i (a, m).
             for_range [0..<length (m ! i)] (\<lambda>j (a, m).
               (case f red (a, m ! i ! j) of
                  (a', x') \<Rightarrow> ((a', m[i := (m ! i)[j := x']]), None))) (a, m))
           (initialValue red, m) of
        ((a, m'), _) \<Rightarrow> (a, red\<lparr>initialValue := a\<rparr>, m'))"

section \<open>Notions used in the statements and proofs\<close>

text \<open>
  \<open>upd_row n g r\<close> is the row \<open>r\<close> after \<open>r[j] = g j (r[j])\<close> was done for every
  \<open>j < n\<close>.
\<close>

definition upd_row :: "nat \<Rightarrow> (nat \<Rightarrow> float64 \<Rightarrow> float64) \<Rightarrow> vec \<Rightarrow> vec" where
  "upd_row n g r = map (\<lambda>j. if j < n then g j (r ! j) else r ! j) [0..<length r]"

text \<open>
  \<open>exact_add x y\<close>: \<open>x\<close> and \<open>y\<close> are finite, \<open>x\<close> is a float64, and the exact sum of the
  two is a float64 as well, so that \<open>x + y\<close> is computed without rounding or overflow.
\<close>

definition exact_add :: "float64 \<Rightarrow> float64 \<Rightarrow> bool" where
  "exact_add x y = (case (x, y) of
       (Finite s a, Finite t b) \<Rightarrow>
         is_float64 x \<and>
         (let q = signed s a + signed t b
          in q = 0 \<or> round64 (q < 0) \<bar>q\<bar> = Finite (q < 0) \<bar>q\<bar>)
     | _ \<Rightarrow> False)"

text \<open>
  The combiner of the example in the comment of \<open>NewReducer\<close> and of \<open>BenchmarkSum1\<close>,
  \<open>func(i *float64, j *float64) { *i += *j }\<close>.
\<close>

definition add_into :: BinaryFn where
  "add_into = (\<lambda>(i, j). (fadd i j, j))"

section \<open>Loops\<close>

lemma for_range_append:
  "for_range (xs @ ys) body s =
     (case for_range xs body s of
        (s', None) \<Rightarrow> for_range ys body s'
      | (s', Some e) \<Rightarrow> (s', Some e))"
  by (induction xs arbitrary: s) (auto split: prod.splits option.splits)

lemma for_range_cong:
  "(\<And>i s. i \<in> set xs \<Longrightarrow> body i s = body' i s) \<Longrightarrow> for_range xs body s = for_range xs body' s"
  by (induction xs arbitrary: s) (auto split: prod.splits option.splits)

lemma for_range_fold:
  "for_range xs (\<lambda>i s. (g i s, None)) s = (fold g xs s, None)"
  by (induction xs arbitrary: s) auto


lemma length_upd_row [simp]: "length (upd_row n g r) = length r"
  by (simp add: upd_row_def)

lemma nth_upd_row [simp]:
  "j < length r \<Longrightarrow> upd_row n g r ! j = (if j < n then g j (r ! j) else r ! j)"
  by (simp add: upd_row_def)

lemma upd_row_0 [simp]: "upd_row 0 g r = r"
  by (rule nth_equalityI) simp_all

lemma upd_row_Suc:
  "n < length r \<Longrightarrow> (upd_row n g r)[n := g n (r ! n)] = upd_row (Suc n) g r"
  by (rule nth_equalityI) (auto simp: nth_list_update less_Suc_eq)

lemma row_loop:
  "i < length m \<Longrightarrow> n \<le> length (m ! i) \<Longrightarrow>
   for_range [0..<n] (\<lambda>j. update_at i j (g j)) m = (m[i := upd_row n g (m ! i)], None)"
proof (induction n)
  case 0
  then show ?case by simp
next
  case (Suc n)
  then have "for_range [0..<n] (\<lambda>j. update_at i j (g j)) m = (m[i := upd_row n g (m ! i)], None)"
    by simp
  moreover have "update_at i n (g n) (m[i := upd_row n g (m ! i)]) = (m[i := upd_row (Suc n) g (m ! i)], None)"
    using Suc.prems by (simp add: update_at_def upd_row_Suc)
  ultimately show ?case
    by (simp add: for_range_append)
qed


lemma rows_loop:
  assumes body: "\<And>i m'. i < n \<Longrightarrow> length m' = length m \<Longrightarrow> m' ! i = m ! i \<Longrightarrow>
                   body i m' = (m'[i := F i (m ! i)], None)"
    and n: "n \<le> length m"
  shows "for_range [0..<n] body m
         = (map (\<lambda>i. if i < n then F i (m ! i) else m ! i) [0..<length m], None)"
  using assms
proof (induction n)
  case 0
  have "map (\<lambda>i. m ! i) [0..<length m] = m"
    by (rule nth_equalityI) simp_all
  then show ?case by simp
next
  case (Suc n)
  let ?M = "map (\<lambda>i. if i < n then F i (m ! i) else m ! i) [0..<length m]"
  have IH: "for_range [0..<n] body m = (?M, None)"
    using Suc by simp
  have "body n ?M = (?M[n := F n (m ! n)], None)"
    using Suc.prems by (intro Suc.prems(1)) simp_all
  moreover have "?M[n := F n (m ! n)] = map (\<lambda>i. if i < Suc n then F i (m ! i) else m ! i) [0..<length m]"
    using Suc.prems(2) by (intro nth_equalityI) (auto simp: nth_list_update less_Suc_eq)
  ultimately show ?case
    using IH by (simp add: for_range_append)
qed

section \<open>What the kernels compute\<close>

lemma upd_row_full:
  "upd_row (length r) (\<lambda>j. g) r = map g r"
  by (rule nth_equalityI) simp_all

lemma upd_row_zip:
  "length v = length r \<Longrightarrow> upd_row (length v) (\<lambda>j x. opr x (v ! j)) r = map2 opr r v"
  by (rule nth_equalityI) simp_all

lemma scalar_kernel_eq:
  "scalar_kernel opr m v = (map (map (\<lambda>x. opr x v)) m, None)"
proof -
  have "for_range [0..<length m] (\<lambda>i m.
          for_range [0..<length (m ! i)] (\<lambda>j. update_at i j (\<lambda>x. opr x v)) m) m
        = (map (\<lambda>i. if i < length m then map (\<lambda>x. opr x v) (m ! i) else m ! i) [0..<length m], None)"
  proof (rule rows_loop)
    fix i m'
    assume "i < length m" "length m' = length m" "m' ! i = m ! i"
    then show "for_range [0..<length (m' ! i)] (\<lambda>j. update_at i j (\<lambda>x. opr x v)) m'
               = (m'[i := map (\<lambda>x. opr x v) (m ! i)], None)"
      using row_loop [of i m' "length (m' ! i)" "\<lambda>j x. opr x v"]
      by (simp add: upd_row_full)
  qed simp
  moreover have "map (\<lambda>i. if i < length m then map (\<lambda>x. opr x v) (m ! i) else m ! i) [0..<length m]
                 = map (map (\<lambda>x. opr x v)) m"
    by (rule nth_equalityI) simp_all
  ultimately show ?thesis
    by (simp add: scalar_kernel_def)
qed

lemma vec_kernel_fits:
  assumes "\<forall>row\<in>set m. length v \<le> length row"
  shows "vec_kernel opr m v = (map (upd_row (length v) (\<lambda>j x. opr x (v ! j))) m, None)"
proof -
  have "for_range [0..<length m] (\<lambda>i.
          for_range [0..<length v] (\<lambda>j. update_at i j (\<lambda>x. opr x (v ! j)))) m
        = (map (\<lambda>i. if i < length m then upd_row (length v) (\<lambda>j x. opr x (v ! j)) (m ! i) else m ! i)
             [0..<length m], None)"
  proof (rule rows_loop)
    fix i m'
    assume "i < length m" "length m' = length m" "m' ! i = m ! i"
    then show "for_range [0..<length v] (\<lambda>j. update_at i j (\<lambda>x. opr x (v ! j))) m'
               = (m'[i := upd_row (length v) (\<lambda>j x. opr x (v ! j)) (m ! i)], None)"
      using row_loop [of i m' "length v" "\<lambda>j x. opr x (v ! j)"] assms
      by simp
  qed simp
  moreover have "map (\<lambda>i. if i < length m then upd_row (length v) (\<lambda>j x. opr x (v ! j)) (m ! i) else m ! i)
                   [0..<length m]
                 = map (upd_row (length v) (\<lambda>j x. opr x (v ! j))) m"
    by (rule nth_equalityI) simp_all
  ultimately show ?thesis
    by (simp add: vec_kernel_def)
qed

lemma vec_kernel_exact:
  assumes "\<forall>row\<in>set m. length row = length v"
  shows "vec_kernel opr m v = (map (\<lambda>row. map2 opr row v) m, None)"
proof -
  have "map (upd_row (length v) (\<lambda>j x. opr x (v ! j))) m = map (\<lambda>row. map2 opr row v) m"
    using assms by (intro map_cong refl upd_row_zip) simp
  then show ?thesis
    using assms by (simp add: vec_kernel_fits)
qed






section \<open>Float arithmetic\<close>

lemma fadd_Finite:
  "fadd (Finite s a) (Finite t b) =
     (if signed s a + signed t b = 0 then Finite (s \<and> t) 0
      else round64 (signed s a + signed t b < 0) \<bar>signed s a + signed t b\<bar>)"
  by (simp add: Let_def)

lemma signed_zero [simp]: "signed s 0 = 0"
  by (simp add: signed_def)

lemma signed_not: "signed (\<not> t) b = - signed t b"
  by (simp add: signed_def)

lemma signed_abs: "signed (q < 0) \<bar>q\<bar> = q"
  by (simp add: signed_def)

lemma signed_magnitude:
  "0 \<le> a \<Longrightarrow> a \<noteq> 0 \<Longrightarrow> (signed s a < 0) = s \<and> \<bar>signed s a\<bar> = a \<and> signed s a \<noteq> 0"
  by (auto simp: signed_def)

lemma exact_add_restores:
  assumes "exact_add x y"
  shows "feq (fsub (fadd x y) y) x"
proof -
  from assms obtain s a t b where xy: "x = Finite s a" "y = Finite t b"
    by (auto simp: exact_add_def split: float64.splits)
  define q where "q = signed s a + signed t b"
  from assms xy have a: "0 \<le> a" "round64 s a = Finite s a"
    and q: "q = 0 \<or> round64 (q < 0) \<bar>q\<bar> = Finite (q < 0) \<bar>q\<bar>"
    by (simp_all add: exact_add_def is_float64_def q_def Let_def)
  have fxy: "fadd x y = (if q = 0 then Finite (s \<and> t) 0 else round64 (q < 0) \<bar>q\<bar>)"
    unfolding xy q_def by (rule fadd_Finite)
  have "\<exists>u c. fadd x y = Finite u c \<and> signed u c = q"
  proof (cases "q = 0")
    case True
    then show ?thesis
      using fxy by simp
  next
    case False
    then have "fadd x y = Finite (q < 0) \<bar>q\<bar>"
      using q fxy by simp
    then show ?thesis
      using signed_abs by blast
  qed
  then obtain u c where sum: "fadd x y = Finite u c" "signed u c = q"
    by blast
  have ret: "signed u c + signed (\<not> t) b = signed s a"
    using sum(2) by (simp add: signed_not q_def)
  have "fsub (fadd x y) y = fadd (Finite u c) (Finite (\<not> t) b)"
    unfolding fsub_def sum(1) by (simp add: xy(2))
  then have sub: "fsub (fadd x y) y =
      (if signed s a = 0 then Finite (u \<and> \<not> t) 0 else round64 (signed s a < 0) \<bar>signed s a\<bar>)"
    unfolding fadd_Finite ret .
  show ?thesis
  proof (cases "a = 0")
    case True
    then show ?thesis
      using sub xy by simp
  next
    case False
    with a(1) have "(signed s a < 0) = s" "\<bar>signed s a\<bar> = a" "signed s a \<noteq> 0"
      using signed_magnitude by blast+
    then show ?thesis
      using sub xy a(2) by simp
  qed
qed

lemma exact_add_1_2:
  "exact_add (Finite False 1) (Finite False 2)"
  by code_simp






section \<open>Operands of the wrong shape\<close>




section \<open>The reductions\<close>

lemma for_range_panic_from_body:
  "for_range xs body s = (s', Some e) \<Longrightarrow> \<exists>i\<in>set xs. \<exists>t t'. body i t = (t', Some e)"
proof (induction xs arbitrary: s)
  case Nil
  then show ?case by simp
next
  case (Cons i xs)
  show ?case
  proof (cases "body i s")
    case (Pair t r)
    show ?thesis
    proof (cases r)
      case None
      with Pair Cons.prems have "for_range xs body t = (s', Some e)" by simp
      from Cons.IH [OF this] show ?thesis by auto
    next
      case (Some e')
      with Pair Cons.prems have "e' = e" by simp
      with Pair Some show ?thesis by auto
    qed
  qed
qed

lemma returned_fold [simp]:
  "returned (for_range xs (\<lambda>i s. (g i s, None)) s) = Inr (fold g xs s)"
  by (simp add: for_range_fold returned_def)

lemma nested_fold:
  "for_range xs (\<lambda>i. for_range (ys i) (\<lambda>j s. (g i j s, None))) s
   = (fold (\<lambda>i. fold (g i) (ys i)) xs s, None)"
proof -
  have "for_range xs (\<lambda>i. for_range (ys i) (\<lambda>j s. (g i j s, None))) s
        = for_range xs (\<lambda>i s. (fold (g i) (ys i) s, None)) s"
    by (intro for_range_cong) (simp add: for_range_fold)
  then show ?thesis
    by (simp add: for_range_fold)
qed

lemma index_cases:
  "index xs k = Inl IndexOutOfRange \<or> (\<exists>y. index xs k = Inr y)"
  by (simp add: index_def)

lemma column_loop_result:
  "returned (for_range xs (\<lambda>i acc.
      (case index (rows i) (k i) of
         Inl e \<Rightarrow> (acc, Some e)
       | Inr y \<Rightarrow> (opr acc y, None))) a) = Inl IndexOutOfRange \<or>
   (\<exists>y. returned (for_range xs (\<lambda>i acc.
      (case index (rows i) (k i) of
         Inl e \<Rightarrow> (acc, Some e)
       | Inr y \<Rightarrow> (opr acc y, None))) a) = Inr y)"
proof (cases "for_range xs (\<lambda>i acc.
      (case index (rows i) (k i) of
         Inl e \<Rightarrow> (acc, Some e)
       | Inr y \<Rightarrow> (opr acc y, None))) a")
  case (Pair s r)
  show ?thesis
  proof (cases r)
    case None
    with Pair show ?thesis by (simp add: returned_def)
  next
    case (Some e)
    from for_range_panic_from_body [OF Pair [unfolded Some]]
    obtain i t t' where "(case index (rows i) (k i) of
         Inl e \<Rightarrow> (t, Some e)
       | Inr y \<Rightarrow> (opr t y, None)) = (t', Some e)"
      by blast
    then have "e = IndexOutOfRange"
      using index_cases [of "rows i" "k i"] by auto
    with Pair Some show ?thesis by (simp add: returned_def)
  qed
qed

lemma row_case_result:
  "(case index m k of Inl e \<Rightarrow> Inl e
    | Inr row \<Rightarrow> returned (for_range [0..<length row] (\<lambda>i acc. (opr acc (row ! i), None)) a))
   = Inl IndexOutOfRange \<or>
   (\<exists>y. (case index m k of Inl e \<Rightarrow> Inl e
    | Inr row \<Rightarrow> returned (for_range [0..<length row] (\<lambda>i acc. (opr acc (row ! i), None)) a))
   = Inr y)"
  using index_cases [of m k] by auto

lemma Sum_bad_arity:
  "length args \<noteq> 0 \<Longrightarrow> length args \<noteq> 2 \<Longrightarrow> Sum m args = Inl (BadArity ''Sum()'' (length args))"
  by (simp add: Sum_def)

lemma Prod_bad_arity:
  "length args \<noteq> 0 \<Longrightarrow> length args \<noteq> 2 \<Longrightarrow> Prod m args = Inl (BadArity ''Prod()'' (length args))"
  by (simp add: Prod_def)

lemma Avg_bad_arity:
  "length args \<noteq> 0 \<Longrightarrow> length args \<noteq> 2 \<Longrightarrow> Avg m args = Inl (BadArity ''Avg()'' (length args))"
  by (simp add: Avg_def)

lemma Sum_bad_axis:
  "length args = 2 \<Longrightarrow> args ! 0 \<noteq> 0 \<Longrightarrow> args ! 0 \<noteq> 1 \<Longrightarrow> Sum m args = Inl (BadAxis ''Sum()'' (args ! 0))"
  by (simp add: Sum_def)

lemma Prod_bad_axis:
  "length args = 2 \<Longrightarrow> args ! 0 \<noteq> 0 \<Longrightarrow> args ! 0 \<noteq> 1 \<Longrightarrow> Prod m args = Inl (BadAxis ''Prod()'' (args ! 0))"
  by (simp add: Prod_def)

lemma Avg_bad_axis:
  "length args = 2 \<Longrightarrow> args ! 0 \<noteq> 0 \<Longrightarrow> args ! 0 \<noteq> 1 \<Longrightarrow> Avg m args = Inl (BadAxis ''Avg()'' (args ! 0))"
  by (simp add: Avg_def)

lemma Sum_all:
  "Sum m [] = Inr (fold (\<lambda>i. fold (\<lambda>j acc. fadd acc (m ! i ! j)) [0..<length (m ! i)]) [0..<length m] fzero)"
  by (simp add: Sum_def nested_fold returned_def)

lemma Prod_all:
  "Prod m [] = Inr (fold (\<lambda>i. fold (\<lambda>j acc. fmul acc (m ! i ! j)) [0..<length (m ! i)]) [0..<length m] fone)"
  by (simp add: Prod_def nested_fold returned_def)

lemma for_range_fold_pair:
  "for_range xs (\<lambda>i (a, b). (g i a b, None)) s = (fold (\<lambda>i (a, b). g i a b) xs s, None)"
  by (induction xs arbitrary: s) (auto split: prod.splits)

lemma Avg_loop:
  "for_range [0..<length m] (\<lambda>i.
     for_range [0..<length (m ! i)] (\<lambda>j (acc, numItems).
       ((fadd acc (m ! i ! j), numItems + 1), None))) s
   = (fold (\<lambda>i. fold (\<lambda>j (acc, numItems). (fadd acc (m ! i ! j), numItems + 1))
        [0..<length (m ! i)]) [0..<length m] s, None)"
proof -
  have "for_range [0..<length m] (\<lambda>i.
     for_range [0..<length (m ! i)] (\<lambda>j (acc, numItems).
       ((fadd acc (m ! i ! j), numItems + 1), None))) s
     = for_range [0..<length m] (\<lambda>i s.
         (fold (\<lambda>j (acc, numItems). (fadd acc (m ! i ! j), numItems + 1)) [0..<length (m ! i)] s,
          None)) s"
    by (intro for_range_cong) (rule for_range_fold_pair)
  then show ?thesis
    by (simp add: for_range_fold)
qed

lemma Avg_all:
  "\<exists>acc n. Avg m [] = Inr (fdiv acc (float64_of_int n))"
proof -
  obtain acc n where "fold (\<lambda>i. fold (\<lambda>j (acc, numItems). (fadd acc (m ! i ! j), numItems + 1))
        [0..<length (m ! i)]) [0..<length m] (fzero, 0::int) = (acc, n)"
    by (cases "fold (\<lambda>i. fold (\<lambda>j (acc, numItems). (fadd acc (m ! i ! j), numItems + 1))
        [0..<length (m ! i)]) [0..<length m] (fzero, 0::int)") blast
  then have "Avg m [] = Inr (fdiv acc (float64_of_int n))"
    by (simp add: Avg_def Avg_loop returned_def)
  then show ?thesis by blast
qed

lemma two_args:
  "length args = 2 \<Longrightarrow> args = [args ! 0, args ! 1]"
  by (cases args; cases "tl args") auto

lemma Sum_row_axis:
  "Sum m [0, x] =
     (case index m (if 0 \<le> x then x else int (length m) + x) of
        Inl e \<Rightarrow> Inl e
      | Inr row \<Rightarrow>
          returned (for_range [0..<length row] (\<lambda>i acc. (fadd acc (row ! i), None)) fzero))"
  by (simp add: Sum_def Let_def)

lemma Sum_column_axis:
  "Sum m [1, x] =
     returned (for_range [0..<length m] (\<lambda>i acc.
       (case index (m ! i) (if 0 \<le> x then x else int (length (m ! 0)) + x) of
          Inl e \<Rightarrow> (acc, Some e)
        | Inr y \<Rightarrow> (fadd acc y, None))) fzero)"
  by (simp add: Sum_def Let_def)

lemma Sum_no_usage_error:
  assumes "length args = 0 \<or> length args = 2 \<and> (args ! 0 = 0 \<or> args ! 0 = 1)"
  shows "Sum m args = Inl IndexOutOfRange \<or> (\<exists>y. Sum m args = Inr y)"
proof -
  consider "args = []" | x where "args = [0, x]" | x where "args = [1, x]"
    using assms two_args by (metis length_0_conv)
  then show ?thesis
  proof cases
    case 1
    then show ?thesis by (simp add: Sum_all)
  next
    case 2
    show ?thesis
      unfolding 2 Sum_row_axis by (rule row_case_result)
  next
    case 3
    show ?thesis
      unfolding 3 Sum_column_axis by (rule column_loop_result)
  qed
qed

lemma Prod_row_axis:
  "Prod m [0, x] =
     (case index m (if 0 \<le> x then x else int (length m) + x) of
        Inl e \<Rightarrow> Inl e
      | Inr row \<Rightarrow>
          returned (for_range [0..<length row] (\<lambda>i acc. (fmul acc (row ! i), None)) fone))"
  by (simp add: Prod_def Let_def)

lemma Prod_column_axis:
  "Prod m [1, x] =
     returned (for_range [0..<length m] (\<lambda>i acc.
       (case index (m ! i) (if 0 \<le> x then x else int (length (m ! 0)) + x) of
          Inl e \<Rightarrow> (acc, Some e)
        | Inr y \<Rightarrow> (fmul acc y, None))) fone)"
  by (simp add: Prod_def Let_def)

lemma Prod_no_usage_error:
  assumes "length args = 0 \<or> length args = 2 \<and> (args ! 0 = 0 \<or> args ! 0 = 1)"
  shows "Prod m args = Inl IndexOutOfRange \<or> (\<exists>y. Prod m args = Inr y)"
proof -
  consider "args = []" | x where "args = [0, x]" | x where "args = [1, x]"
    using assms two_args by (metis length_0_conv)
  then show ?thesis
  proof cases
    case 1
    then show ?thesis by (simp add: Prod_all)
  next
    case 2
    show ?thesis
      unfolding 2 Prod_row_axis by (rule row_case_result)
  next
    case 3
    show ?thesis
      unfolding 3 Prod_column_axis by (rule column_loop_result)
  qed
qed

lemma Avg_row_axis:
  "Avg m [0, x] =
     (case index m (if 0 \<le> x then x else int (length m) + x) of
        Inl e \<Rightarrow> Inl e
      | Inr row \<Rightarrow>
          Inr (fdiv (fold (\<lambda>i acc. fadd acc (row ! i)) [0..<length row] fzero)
                 (float64_of_int (int (length row)))))"
  by (simp add: Avg_def Let_def split: sum.splits)

lemma Avg_column_axis:
  "Avg m [1, x] =
     (case returned (for_range [0..<length m] (\<lambda>i acc.
        (case index (m ! i) (if 0 \<le> x then x else int (length (m ! 0)) + x) of
           Inl e \<Rightarrow> (acc, Some e)
         | Inr y \<Rightarrow> (fadd acc y, None))) fzero) of
        Inl e \<Rightarrow> Inl e
      | Inr acc \<Rightarrow> Inr (fdiv acc (float64_of_int (int (length m)))))"
  by (simp add: Avg_def Let_def split: sum.splits)

lemma Avg_no_usage_error:
  assumes "length args = 0 \<or> length args = 2 \<and> (args ! 0 = 0 \<or> args ! 0 = 1)"
  shows "Avg m args = Inl IndexOutOfRange \<or> (\<exists>y. Avg m args = Inr y)"
proof -
  consider "args = []" | x where "args = [0, x]" | x where "args = [1, x]"
    using assms two_args by (metis length_0_conv)
  then show ?thesis
  proof cases
    case 1
    then show ?thesis using Avg_all [of m] by auto
  next
    case 2
    show ?thesis
      unfolding 2 Avg_row_axis
      using index_cases [of m "if 0 \<le> x then x else int (length m) + x"] by auto
  next
    case 3
    show ?thesis
      unfolding 3 Avg_column_axis
      using column_loop_result [where xs = "[0..<length m]" and rows = "\<lambda>i. m ! i"
          and k = "\<lambda>i. if 0 \<le> x then x else int (length (m ! 0)) + x" and opr = fadd and a = fzero]
      by auto
  qed
qed

text \<open>
  C9.  For every Grid \<open>m\<close>, each of \<open>Sum\<close>, \<open>Prod\<close> and \<open>Avg\<close> panics with a message that
  holds its own name and the number of trailing arguments when that number is neither 0
  nor 2, and with a message that holds its own name and the axis when there are two
  trailing arguments and the axis is neither 0 nor 1.  With no trailing argument, or with
  two and the axis 0 or 1, no such panic is raised: the call returns a value, or the
  index is out of range and the run-time error of the indexing is what it panics with.
\<close>

theorem reduction_usage_errors:
  "(length args \<noteq> 0 \<and> length args \<noteq> 2 \<longrightarrow>
      Sum m args = Inl (BadArity ''Sum()'' (length args)) \<and>
      Prod m args = Inl (BadArity ''Prod()'' (length args)) \<and>
      Avg m args = Inl (BadArity ''Avg()'' (length args))) \<and>
   (length args = 2 \<and> args ! 0 \<noteq> 0 \<and> args ! 0 \<noteq> 1 \<longrightarrow>
      Sum m args = Inl (BadAxis ''Sum()'' (args ! 0)) \<and>
      Prod m args = Inl (BadAxis ''Prod()'' (args ! 0)) \<and>
      Avg m args = Inl (BadAxis ''Avg()'' (args ! 0))) \<and>
   (length args = 0 \<or> length args = 2 \<and> (args ! 0 = 0 \<or> args ! 0 = 1) \<longrightarrow>
      (Sum m args = Inl IndexOutOfRange \<or> (\<exists>y. Sum m args = Inr y)) \<and>
      (Prod m args = Inl IndexOutOfRange \<or> (\<exists>y. Prod m args = Inr y)) \<and>
      (Avg m args = Inl IndexOutOfRange \<or> (\<exists>y. Avg m args = Inr y)))"
proof (intro conjI impI)
  assume "length args \<noteq> 0 \<and> length args \<noteq> 2"
  then show "Sum m args = Inl (BadArity ''Sum()'' (length args))"
    and "Prod m args = Inl (BadArity ''Prod()'' (length args))"
    and "Avg m args = Inl (BadArity ''Avg()'' (length args))"
    by (simp_all add: Sum_bad_arity Prod_bad_arity Avg_bad_arity)
next
  assume "length args = 2 \<and> args ! 0 \<noteq> 0 \<and> args ! 0 \<noteq> 1"
  then show "Sum m args = Inl (BadAxis ''Sum()'' (args ! 0))"
    and "Prod m args = Inl (BadAxis ''Prod()'' (args ! 0))"
    and "Avg m args = Inl (BadAxis ''Avg()'' (args ! 0))"
    by (simp_all add: Sum_bad_axis Prod_bad_axis Avg_bad_axis)
next
  assume ok: "length args = 0 \<or> length args = 2 \<and> (args ! 0 = 0 \<or> args ! 0 = 1)"
  show "Sum m args = Inl IndexOutOfRange \<or> (\<exists>y. Sum m args = Inr y)"
    using ok by (rule Sum_no_usage_error)
  show "Prod m args = Inl IndexOutOfRange \<or> (\<exists>y. Prod m args = Inr y)"
    using ok by (rule Prod_no_usage_error)
  show "Avg m args = Inl IndexOutOfRange \<or> (\<exists>y. Avg m args = Inr y)"
    using ok by (rule Avg_no_usage_error)
qed

text \<open>
  C9, witness: the Grid \<open>[[1, 2]]\<close> with the trailing arguments \<open>(3)\<close>, \<open>(2, 0)\<close> and
  \<open>(1, 0)\<close>.
\<close>

theorem reduction_usage_errors_witness:
  "Sum [[Finite False 1, Finite False 2]] [3] = Inl (BadArity ''Sum()'' 1) \<and>
   Prod [[Finite False 1, Finite False 2]] [3] = Inl (BadArity ''Prod()'' 1) \<and>
   Avg [[Finite False 1, Finite False 2]] [3] = Inl (BadArity ''Avg()'' 1) \<and>
   Sum [[Finite False 1, Finite False 2]] [2, 0] = Inl (BadAxis ''Sum()'' 2) \<and>
   Prod [[Finite False 1, Finite False 2]] [2, 0] = Inl (BadAxis ''Prod()'' 2) \<and>
   Avg [[Finite False 1, Finite False 2]] [2, 0] = Inl (BadAxis ''Avg()'' 2) \<and>
   (Sum [[Finite False 1, Finite False 2]] [1, 0] = Inl IndexOutOfRange \<or>
      (\<exists>y. Sum [[Finite False 1, Finite False 2]] [1, 0] = Inr y)) \<and>
   (Prod [[Finite False 1, Finite False 2]] [1, 0] = Inl IndexOutOfRange \<or>
      (\<exists>y. Prod [[Finite False 1, Finite False 2]] [1, 0] = Inr y)) \<and>
   (Avg [[Finite False 1, Finite False 2]] [1, 0] = Inl IndexOutOfRange \<or>
      (\<exists>y. Avg [[Finite False 1, Finite False 2]] [1, 0] = Inr y))"
  using reduction_usage_errors [of "[3]" "[[Finite False 1, Finite False 2]]"]
    reduction_usage_errors [of "[2, 0]" "[[Finite False 1, Finite False 2]]"]
    reduction_usage_errors [of "[1, 0]" "[[Finite False 1, Finite False 2]]"]
  by simp

section \<open>Negative indices\<close>

lemma index_nonneg:
  "0 \<le> k \<Longrightarrow> k < int (length xs) \<Longrightarrow> index xs k = Inr (xs ! nat k)"
  by (simp add: index_def)

lemma Sum_row_value:
  assumes "0 \<le> k" and "k < int (length m)"
  shows "Sum m [0, k] = Inr (fold (\<lambda>i acc. fadd acc (m ! nat k ! i)) [0..<length (m ! nat k)] fzero)"
    and "Sum m [0, k - int (length m)]
         = Inr (fold (\<lambda>i acc. fadd acc (m ! nat k ! i)) [0..<length (m ! nat k)] fzero)"
  using assms by (simp_all add: Sum_row_axis index_nonneg)

lemma column_loop_value:
  assumes "\<forall>row\<in>set m. length row = c" and "0 \<le> k" and "k < int c"
  shows "returned (for_range [0..<length m] (\<lambda>i acc.
           (case index (m ! i) k of
              Inl e \<Rightarrow> (acc, Some e)
            | Inr y \<Rightarrow> (opr acc y, None))) a)
         = Inr (fold (\<lambda>i acc. opr acc (m ! i ! nat k)) [0..<length m] a)"
proof -
  have "for_range [0..<length m] (\<lambda>i acc.
           (case index (m ! i) k of
              Inl e \<Rightarrow> (acc, Some e)
            | Inr y \<Rightarrow> (opr acc y, None))) a
        = for_range [0..<length m] (\<lambda>i acc. (opr acc (m ! i ! nat k), None)) a"
    using assms by (intro for_range_cong) (simp add: index_nonneg)
  then show ?thesis
    by simp
qed

lemma Sum_column_value:
  assumes "\<forall>row\<in>set m. length row = c" and "0 \<le> k" and "k < int c"
  shows "Sum m [1, k] = Inr (fold (\<lambda>i acc. fadd acc (m ! i ! nat k)) [0..<length m] fzero)"
    and "Sum m [1, k - int c] = Inr (fold (\<lambda>i acc. fadd acc (m ! i ! nat k)) [0..<length m] fzero)"
proof -
  show "Sum m [1, k] = Inr (fold (\<lambda>i acc. fadd acc (m ! i ! nat k)) [0..<length m] fzero)"
    using assms column_loop_value [OF assms, of fadd fzero] by (simp add: Sum_column_axis)
  show "Sum m [1, k - int c] = Inr (fold (\<lambda>i acc. fadd acc (m ! i ! nat k)) [0..<length m] fzero)"
  proof (cases "m = []")
    case True
    then show ?thesis by (simp add: Sum_column_axis returned_def)
  next
    case False
    then have "length (m ! 0) = c"
      using assms(1) by simp
    then show ?thesis
      using assms column_loop_value [OF assms, of fadd fzero] by (simp add: Sum_column_axis)
  qed
qed

text \<open>
  C8.  For every non-jagged Grid \<open>m\<close> with \<open>r\<close> rows and \<open>c\<close> columns: for every row index
  \<open>0 \<le> i < r\<close>, \<open>Sum(m, 0, i)\<close> and \<open>Sum(m, 0, i - r)\<close> return the same value, and for
  every column index \<open>0 \<le> j < c\<close>, \<open>Sum(m, 1, j)\<close> and \<open>Sum(m, 1, j - c)\<close> return the same
  value; none of the four calls panics.
\<close>

theorem Sum_negative_index:
  assumes "\<forall>row\<in>set m. length row = c"
  shows "(0 \<le> i \<and> i < int (length m) \<longrightarrow>
            (\<exists>y. Sum m [0, i] = Inr y \<and> Sum m [0, i - int (length m)] = Inr y)) \<and>
         (0 \<le> j \<and> j < int c \<longrightarrow>
            (\<exists>y. Sum m [1, j] = Inr y \<and> Sum m [1, j - int c] = Inr y))"
  using assms Sum_row_value [of i m] Sum_column_value [of m c j] by simp

lemma Sum_example_values:
  "Sum [[Finite False 1, Finite False 2], [Finite False 3, Finite False 4]] [0, 1] = Inr (Finite False 7)"
  "Sum [[Finite False 1, Finite False 2], [Finite False 3, Finite False 4]] [1, 1] = Inr (Finite False 6)"
  by code_simp+

text \<open>
  C8, witness: the Grid \<open>[[1, 2], [3, 4]]\<close>, its row 1 and its column 1, addressed as
  \<open>1 - 2\<close>.
\<close>

theorem Sum_negative_index_witness:
  "map length [[Finite False 1, Finite False 2], [Finite False 3, Finite False 4]] = [2, 2] \<and>
   Sum [[Finite False 1, Finite False 2], [Finite False 3, Finite False 4]] [0, 1 - 2] = Inr (Finite False 7) \<and>
   Sum [[Finite False 1, Finite False 2], [Finite False 3, Finite False 4]] [1, 1 - 2] = Inr (Finite False 6)"
proof -
  let ?m = "[[Finite False 1, Finite False 2], [Finite False 3, Finite False 4]]"
  have h: "\<forall>row\<in>set ?m. length row = 2" by simp
  from Sum_negative_index [OF h, of 1 1] Sum_example_values
  show ?thesis by simp
qed

section \<open>The average of nothing\<close>

lemma zero_by_zero:
  "fdiv fzero (float64_of_int 0) = NaN"
  by (simp add: fzero_def float64_of_int_def round64_def)

lemma for_range_skip:
  "for_range xs (\<lambda>i s. (s, None)) s = (s, None)"
  by (induction xs) simp_all

lemma Avg_zero_columns:
  assumes "\<forall>row\<in>set m. row = []"
  shows "Avg m [] = Inr NaN"
proof -
  have "for_range [0..<length m] (\<lambda>i.
          for_range [0..<length (m ! i)] (\<lambda>j (acc, numItems).
            ((fadd acc (m ! i ! j), numItems + 1), None))) (fzero, 0::int)
        = for_range [0..<length m] (\<lambda>i s. (s, None)) (fzero, 0)"
    using assms by (intro for_range_cong) simp
  then show ?thesis
    by (simp add: Avg_def for_range_skip returned_def zero_by_zero)
qed

lemma Avg_empty_row:
  assumes "0 \<le> k" and "k < int (length m)" and "m ! nat k = []"
  shows "Avg m [0, k] = Inr NaN" and "Avg m [0, k - int (length m)] = Inr NaN"
  using assms by (simp_all add: Avg_row_axis index_nonneg zero_by_zero)

lemma Avg_empty_grid:
  "Avg [] [] = Inr NaN" "Avg [] [1, x] = Inr NaN" "Avg [] [0, x] = Inl IndexOutOfRange"
  by (simp_all add: Avg_zero_columns Avg_column_axis Avg_row_axis returned_def zero_by_zero index_def)

text \<open>
  C2, as the code has it.  \<open>Avg\<close> divides \<open>sum\<close> by \<open>float64(numItems)\<close> with no test, and
  a float64 division does not fail.  On the empty Grid, \<open>Avg(m)\<close> and \<open>Avg(m, 1, x)\<close>
  return NaN, the quotient \<open>0.0 / 0.0\<close>; so does \<open>Avg(m)\<close> on a Grid whose rows are all
  empty, and \<open>Avg(m, 0, k)\<close> (also with the negative index of the same row) when the row
  selected is empty.  The one failure is \<open>Avg(m, 0, x)\<close> on the empty Grid: the run-time
  error of reading the row, index out of range, raised before any division.
\<close>

theorem Avg_of_nothing:
  "Avg [] [] = Inr NaN \<and> Avg [] [1, x] = Inr NaN \<and> Avg [] [0, x] = Inl IndexOutOfRange \<and>
   ((\<forall>row\<in>set m. row = []) \<longrightarrow> Avg m [] = Inr NaN) \<and>
   (0 \<le> k \<and> k < int (length m) \<and> m ! nat k = [] \<longrightarrow>
      Avg m [0, k] = Inr NaN \<and> Avg m [0, k - int (length m)] = Inr NaN)"
  using Avg_empty_grid Avg_zero_columns Avg_empty_row by simp

text \<open>
  C2, witness: the Grid \<open>[[], []]\<close> of two empty rows, and the empty row 1 of
  \<open>[[1], []]\<close>, also addressed as \<open>1 - 2\<close>.
\<close>

theorem Avg_of_nothing_witness:
  "Avg [[], []] [] = Inr NaN \<and>
   Avg [[Finite False 1], []] [0, 1] = Inr NaN \<and>
   Avg [[Finite False 1], []] [0, 1 - 2] = Inr NaN"
  using Avg_of_nothing [of _ "[[], []]" 0] Avg_of_nothing [of _ "[[Finite False 1], []]" 1]
  by simp

text \<open>
  C2, counterexample to the claim as stated (an explicit failure instead of NaN):
  \<open>Avg\<close> of the empty Grid, \<open>Avg\<close> of column 0 of the empty Grid and \<open>Avg\<close> of row 0 of
  \<open>[[]]\<close> all return NaN.
\<close>

theorem Avg_of_nothing_counterexample:
  "Avg [] [] = Inr NaN \<and> Avg [] [1, 0] = Inr NaN \<and> Avg [[]] [0, 0] = Inr NaN"
  by code_simp

section \<open>Transpose\<close>

lemma New_two:
  "New [int r, int c] = Inr (replicate r (replicate c fzero))"
  by (simp add: New_def)

lemma T_column_loop:
  assumes "length n = c" and "\<forall>j<c. i < length (n ! j)"
  shows "for_range [0..<c] (\<lambda>j. update_at j i (\<lambda>_. x j)) n
         = (map (\<lambda>j. (n ! j)[i := x j]) [0..<c], None)"
proof -
  have "for_range [0..<c] (\<lambda>j. update_at j i (\<lambda>_. x j)) n
        = (map (\<lambda>j. if j < c then (n ! j)[i := x j] else n ! j) [0..<length n], None)"
  proof (rule rows_loop)
    fix j n'
    assume "j < c" "length n' = length n" "n' ! j = n ! j"
    then show "update_at j i (\<lambda>_. x j) n' = (n'[j := (n ! j)[i := x j]], None)"
      using assms by (simp add: update_at_def)
  qed (use assms in simp)
  moreover have "map (\<lambda>j. if j < c then (n ! j)[i := x j] else n ! j) [0..<length n]
                 = map (\<lambda>j. (n ! j)[i := x j]) [0..<c]"
    using assms(1) by simp
  ultimately show ?thesis by simp
qed

lemma T_loops:
  assumes "\<forall>row\<in>set m. length row = c" and "k \<le> length m"
  shows "for_range [0..<k] (\<lambda>i.
           for_range [0..<length (m ! i)] (\<lambda>j. update_at j i (\<lambda>_. m ! i ! j)))
           (replicate c (replicate (length m) fzero))
         = (map (\<lambda>j. map (\<lambda>i. if i < k then m ! i ! j else fzero) [0..<length m]) [0..<c], None)"
  using assms(2)
proof (induction k)
  case 0
  have "replicate c (replicate (length m) fzero)
        = map (\<lambda>j. map (\<lambda>i. fzero) [0..<length m]) [0..<c]"
    by (intro nth_equalityI) simp_all
  then show ?case by simp
next
  case (Suc k)
  let ?N = "\<lambda>k. map (\<lambda>j. map (\<lambda>i. if i < k then m ! i ! j else fzero) [0..<length m]) [0..<c]"
  have k: "k < length m" "length (m ! k) = c"
    using Suc.prems assms(1) by simp_all
  have "for_range [0..<c] (\<lambda>j. update_at j k (\<lambda>_. m ! k ! j)) (?N k)
        = (map (\<lambda>j. (?N k ! j)[k := m ! k ! j]) [0..<c], None)"
    using k(1) by (intro T_column_loop) simp_all
  moreover have "map (\<lambda>j. (?N k ! j)[k := m ! k ! j]) [0..<c] = ?N (Suc k)"
  proof (rule nth_equalityI)
    show "length (map (\<lambda>j. (?N k ! j)[k := m ! k ! j]) [0..<c]) = length (?N (Suc k))"
      by simp
  next
    fix j
    assume "j < length (map (\<lambda>j. (?N k ! j)[k := m ! k ! j]) [0..<c])"
    then have j: "j < c" by simp
    have "(map (\<lambda>i. if i < k then m ! i ! j else fzero) [0..<length m])[k := m ! k ! j]
          = map (\<lambda>i. if i < Suc k then m ! i ! j else fzero) [0..<length m]"
      using k(1) by (intro nth_equalityI) (auto simp: nth_list_update less_Suc_eq)
    then show "map (\<lambda>j. (?N k ! j)[k := m ! k ! j]) [0..<c] ! j = ?N (Suc k) ! j"
      using j by (simp cong: if_cong)
  qed
  ultimately show ?case
    using Suc k by (simp add: for_range_append)
qed

lemma T_rectangular:
  assumes "m \<noteq> []" and "\<forall>row\<in>set m. length row = c"
  shows "T m = Inr (map (\<lambda>j. map (\<lambda>i. m ! i ! j) [0..<length m]) [0..<c])"
proof -
  have "length (m ! 0) = c"
    using assms by simp
  moreover have "map (\<lambda>j. map (\<lambda>i. if i < length m then m ! i ! j else fzero) [0..<length m]) [0..<c]
                 = map (\<lambda>j. map (\<lambda>i. m ! i ! j) [0..<length m]) [0..<c]"
    by simp
  ultimately show ?thesis
    using assms(1) T_loops [OF assms(2), of "length m"]
    by (simp add: T_def New_two returned_def)
qed

lemma T_twice:
  assumes "m \<noteq> []" and "\<forall>row\<in>set m. length row = c" and "0 < c"
  shows "\<exists>t. T m = Inr t \<and> length t = c \<and>
           (\<forall>j<c. length (t ! j) = length m \<and> (\<forall>i<length m. t ! j ! i = m ! i ! j)) \<and>
           T t = Inr m"
proof -
  let ?t = "map (\<lambda>j. map (\<lambda>i. m ! i ! j) [0..<length m]) [0..<c]"
  have t: "T m = Inr ?t"
    using assms(1,2) by (rule T_rectangular)
  have "?t \<noteq> []" and "\<forall>row\<in>set ?t. length row = length m"
    using assms(3) by auto
  then have "T ?t = Inr (map (\<lambda>j. map (\<lambda>i. ?t ! i ! j) [0..<length ?t]) [0..<length m])"
    by (rule T_rectangular)
  moreover have "map (\<lambda>j. map (\<lambda>i. ?t ! i ! j) [0..<length ?t]) [0..<length m] = m"
  proof (rule nth_equalityI)
    show "length (map (\<lambda>j. map (\<lambda>i. ?t ! i ! j) [0..<length ?t]) [0..<length m]) = length m"
      by simp
  next
    fix i
    assume "i < length (map (\<lambda>j. map (\<lambda>i. ?t ! i ! j) [0..<length ?t]) [0..<length m])"
    then have i: "i < length m" by simp
    then have "length (m ! i) = c"
      using assms(2) by simp
    then have "map (\<lambda>j. ?t ! j ! i) [0..<c] = m ! i"
      using i by (intro nth_equalityI) simp_all
    then show "map (\<lambda>j. map (\<lambda>i. ?t ! i ! j) [0..<length ?t]) [0..<length m] ! i = m ! i"
      using i by simp
  qed
  ultimately have "T ?t = Inr m" by simp
  with t show ?thesis by simp
qed

text \<open>
  C6, as the code has it.  For every non-jagged Grid \<open>m\<close> with at least one row and at
  least one column, \<open>T(m)\<close> is defined, has the columns of \<open>m\<close> as its rows
  (\<open>T(m)[j][i] = m[i][j]\<close>), and \<open>T(T(m))\<close> is defined and is \<open>m\<close> again, element by
  element and in its row and column counts.  \<open>T\<close> reads \<open>m[0]\<close> first: on the empty Grid
  it panics with index out of range, and on a Grid of one or more empty rows it returns
  the empty Grid, so that \<open>T(T(m))\<close> is defined for neither.
\<close>

theorem T_involution:
  "T [] = Inl IndexOutOfRange \<and>
   (m \<noteq> [] \<and> (\<forall>row\<in>set m. row = []) \<longrightarrow> T m = Inr []) \<and>
   (m \<noteq> [] \<and> (\<forall>row\<in>set m. length row = c) \<and> 0 < c \<longrightarrow>
      (\<exists>t. T m = Inr t \<and> length t = c \<and>
           (\<forall>j<c. length (t ! j) = length m \<and> (\<forall>i<length m. t ! j ! i = m ! i ! j)) \<and>
           T t = Inr m))"
proof (intro conjI impI)
  show "T [] = Inl IndexOutOfRange"
    by (simp add: T_def)
next
  assume "m \<noteq> [] \<and> (\<forall>row\<in>set m. row = [])"
  then have "m \<noteq> []" and "\<forall>row\<in>set m. length row = 0"
    by simp_all
  from T_rectangular [OF this] show "T m = Inr []"
    by simp
next
  assume "m \<noteq> [] \<and> (\<forall>row\<in>set m. length row = c) \<and> 0 < c"
  then show "\<exists>t. T m = Inr t \<and> length t = c \<and>
           (\<forall>j<c. length (t ! j) = length m \<and> (\<forall>i<length m. t ! j ! i = m ! i ! j)) \<and>
           T t = Inr m"
    by (intro T_twice) simp_all
qed

lemma T_example:
  "T [[Finite False 1, Finite False 2, Finite False 3]]
   = Inr [[Finite False 1], [Finite False 2], [Finite False 3]]"
  by code_simp

text \<open>
  C6, witness: the Grid \<open>[[], []]\<close> of two empty rows, and the 1 by 3 Grid
  \<open>[[1, 2, 3]]\<close> with its transpose.
\<close>

theorem T_involution_witness:
  "T [[], []] = Inr [] \<and>
   T [[Finite False 1, Finite False 2, Finite False 3]]
     = Inr [[Finite False 1], [Finite False 2], [Finite False 3]] \<and>
   T [[Finite False 1], [Finite False 2], [Finite False 3]]
     = Inr [[Finite False 1, Finite False 2, Finite False 3]]"
proof -
  let ?m = "[[Finite False 1, Finite False 2, Finite False 3]]"
  have "T [[], []] = Inr []"
    using T_involution [of "[[], []]"] by simp
  moreover obtain t where "T ?m = Inr t" "T t = Inr ?m"
    using T_involution [of ?m 3] by auto
  ultimately show ?thesis
    by (simp add: T_example)
qed

text \<open>
  C6, counterexample to the claim as stated (also for the empty Grid and Grids with zero
  columns): \<open>T\<close> of the empty Grid panics, and \<open>T\<close> of \<open>[[], []]\<close> is the empty Grid, whose
  transpose panics.
\<close>

theorem T_involution_counterexample:
  "T [] = Inl IndexOutOfRange \<and> T [[], []] = Inr []"
  by code_simp

section \<open>The matrix product\<close>

lemma row_loop_gen:
  assumes body: "\<And>j m'. j < n \<Longrightarrow> length m' = length m \<Longrightarrow> length (m' ! i) = length (m ! i) \<Longrightarrow>
                   body j m' = update_at i j (g j) m'"
    and i: "i < length m" and n: "n \<le> length (m ! i)"
  shows "for_range [0..<n] body m = (m[i := upd_row n g (m ! i)], None)"
proof -
  have "k \<le> n \<Longrightarrow> for_range [0..<k] body m = (m[i := upd_row k g (m ! i)], None)" for k
  proof (induction k)
    case 0
    then show ?case by simp
  next
    case (Suc k)
    then have IH: "for_range [0..<k] body m = (m[i := upd_row k g (m ! i)], None)"
      by simp
    have "body k (m[i := upd_row k g (m ! i)]) = update_at i k (g k) (m[i := upd_row k g (m ! i)])"
      using Suc.prems i by (intro body) simp_all
    also have "\<dots> = (m[i := upd_row (Suc k) g (m ! i)], None)"
      using Suc.prems i n by (simp add: update_at_def upd_row_Suc)
    finally show ?case
      using IH by (simp add: for_range_append)
  qed
  then show ?thesis by simp
qed

lemma accumulate_at:
  "i < length res \<Longrightarrow> j < length (res ! i) \<Longrightarrow>
   for_range ts (\<lambda>t. update_at i j (g t)) res = update_at i j (\<lambda>x. fold g ts x) res"
proof (induction ts arbitrary: res)
  case Nil
  then show ?case by (simp add: update_at_def)
next
  case (Cons t ts)
  let ?res = "res[i := (res ! i)[j := g t (res ! i ! j)]]"
  have step: "update_at i j (g t) res = (?res, None)"
    using Cons.prems by (simp add: update_at_def)
  have "for_range ts (\<lambda>t. update_at i j (g t)) ?res = update_at i j (\<lambda>x. fold g ts x) ?res"
    using Cons.prems by (intro Cons.IH) simp_all
  also have "\<dots> = update_at i j (\<lambda>x. fold g (t # ts) x) res"
    using Cons.prems by (simp add: update_at_def)
  finally show ?case
    by (simp add: step)
qed

lemma Dot_entry_loop:
  assumes "i < length res" and "j < length (res ! i)"
    and "\<forall>t<k. t < length n \<and> j < length (n ! t)"
  shows "for_range [0..<k] (\<lambda>t res.
           (case index2 n t j of
              Inl e \<Rightarrow> (res, Some e)
            | Inr y \<Rightarrow> update_at i j (\<lambda>x. fadd x (fmul (a t) y)) res)) res
         = update_at i j (\<lambda>x. fold (\<lambda>t x. fadd x (fmul (a t) (n ! t ! j))) [0..<k] x) res"
proof -
  have "for_range [0..<k] (\<lambda>t res.
           (case index2 n t j of
              Inl e \<Rightarrow> (res, Some e)
            | Inr y \<Rightarrow> update_at i j (\<lambda>x. fadd x (fmul (a t) y)) res)) res
        = for_range [0..<k] (\<lambda>t. update_at i j (\<lambda>x. fadd x (fmul (a t) (n ! t ! j)))) res"
    using assms(3) by (intro for_range_cong) (simp add: index2_def)
  then show ?thesis
    using assms(1,2) by (simp add: accumulate_at)
qed

lemma Dot_rectangular:
  assumes A: "\<forall>row\<in>set m. length row = length n"
    and B: "\<forall>row\<in>set n. length row = c" and ne: "n \<noteq> []"
  shows "Dot m n = Inr (map (\<lambda>i. map (\<lambda>j.
           fold (\<lambda>t acc. fadd acc (fmul (m ! i ! t) (n ! t ! j))) [0..<length n] fzero)
           [0..<c]) [0..<length m])"
proof -
  let ?G = "\<lambda>i j x. fold (\<lambda>t x. fadd x (fmul (m ! i ! t) (n ! t ! j))) [0..<length n] x"
  let ?res = "replicate (length m) (replicate c fzero)"
  let ?inner = "\<lambda>i j. for_range [0..<length (m ! i)] (\<lambda>k res.
                      (case index2 n k j of
                         Inl e \<Rightarrow> (res, Some e)
                       | Inr y \<Rightarrow> update_at i j (\<lambda>x. fadd x (fmul (m ! i ! k) y)) res))"
  have c: "length (n ! 0) = c"
    using B ne by simp
  have "for_range [0..<length m] (\<lambda>i. for_range [0..<c] (?inner i)) ?res
        = (map (\<lambda>i. if i < length m then upd_row c (?G i) (?res ! i) else ?res ! i)
             [0..<length ?res], None)"
  proof (rule rows_loop)
    fix i res'
    assume i: "i < length m" and res': "length res' = length ?res" "res' ! i = ?res ! i"
    have mi: "length (m ! i) = length n"
      using A i by simp
    show "for_range [0..<c] (?inner i) res' = (res'[i := upd_row c (?G i) (?res ! i)], None)"
      unfolding res'(2) [symmetric]
    proof (rule row_loop_gen)
      fix j and r' :: grid
      assume j: "j < c" and r': "length r' = length res'" "length (r' ! i) = length (res' ! i)"
      have "\<forall>t<length n. t < length n \<and> j < length (n ! t)"
        using B j by simp
      then show "?inner i j r' = update_at i j (?G i j) r'"
        unfolding mi using i j r' res'
        by (intro Dot_entry_loop) simp_all
    qed (use i res' in simp_all)
  qed simp
  moreover have "map (\<lambda>i. if i < length m then upd_row c (?G i) (?res ! i) else ?res ! i)
                   [0..<length ?res]
                 = map (\<lambda>i. map (\<lambda>j. ?G i j fzero) [0..<c]) [0..<length m]"
  proof (rule nth_equalityI)
    fix i
    assume "i < length (map (\<lambda>i. if i < length m then upd_row c (?G i) (?res ! i) else ?res ! i)
                   [0..<length ?res])"
    then have i: "i < length m" by simp
    have "upd_row c (?G i) (replicate c fzero) = map (\<lambda>j. ?G i j fzero) [0..<c]"
      by (intro nth_equalityI) simp_all
    then show "map (\<lambda>i. if i < length m then upd_row c (?G i) (?res ! i) else ?res ! i)
                   [0..<length ?res] ! i
               = map (\<lambda>i. map (\<lambda>j. ?G i j fzero) [0..<c]) [0..<length m] ! i"
      using i by simp
  qed simp
  ultimately show ?thesis
    using ne c by (simp add: Dot_def New_two returned_def)
qed

text \<open>
  C7, as the code has it.  \<open>Dot\<close> reads \<open>n[0]\<close> first, so it panics with index out of
  range when \<open>B\<close> has no row.  For non-jagged Grids \<open>A\<close> of shape \<open>r \<times> k\<close> and \<open>B\<close> of
  shape \<open>k \<times> c\<close> with \<open>k \<ge> 1\<close>, \<open>Dot(A, B)\<close> returns a Grid \<open>C\<close> of \<open>r\<close> rows of length
  \<open>c\<close>, where \<open>C[i][j]\<close> is the sum of the products \<open>A[i][t] * B[t][j]\<close> accumulated in
  float64 arithmetic from \<open>0.0\<close> in the order \<open>t = 0, \<dots>, k - 1\<close>.  \<open>Dot\<close> writes to the
  Grid it made with \<open>New\<close> only; \<open>A\<close> and \<open>B\<close> are read, which is why the model threads
  the result alone through the loops.
\<close>

theorem Dot_entries:
  "Dot A [] = Inl IndexOutOfRange \<and>
   ((\<forall>row\<in>set A. length row = length B) \<and> (\<forall>row\<in>set B. length row = c) \<and> B \<noteq> [] \<longrightarrow>
      (\<exists>C. Dot A B = Inr C \<and> length C = length A \<and>
           (\<forall>i<length A. length (C ! i) = c \<and>
              (\<forall>j<c. C ! i ! j
                      = fold (\<lambda>t acc. fadd acc (fmul (A ! i ! t) (B ! t ! j))) [0..<length B] fzero))))"
proof (intro conjI impI)
  show "Dot A [] = Inl IndexOutOfRange"
    by (simp add: Dot_def)
next
  assume "(\<forall>row\<in>set A. length row = length B) \<and> (\<forall>row\<in>set B. length row = c) \<and> B \<noteq> []"
  then have "Dot A B = Inr (map (\<lambda>i. map (\<lambda>j.
           fold (\<lambda>t acc. fadd acc (fmul (A ! i ! t) (B ! t ! j))) [0..<length B] fzero)
           [0..<c]) [0..<length A])"
    by (intro Dot_rectangular) simp_all
  then show "\<exists>C. Dot A B = Inr C \<and> length C = length A \<and>
           (\<forall>i<length A. length (C ! i) = c \<and>
              (\<forall>j<c. C ! i ! j
                      = fold (\<lambda>t acc. fadd acc (fmul (A ! i ! t) (B ! t ! j))) [0..<length B] fzero))"
    by simp
qed

lemma Dot_example:
  "Dot [[Finite False 1, Finite False 0], [Finite False 0, Finite False 1]]
       [[Finite False 5, Finite False 6], [Finite False 7, Finite False 8]]
   = Inr [[Finite False 5, Finite False 6], [Finite False 7, Finite False 8]]"
  by code_simp

text \<open>
  C7, witness: the scenario of the specification, the 2 by 2 identity times
  \<open>[[5, 6], [7, 8]]\<close>.
\<close>

theorem Dot_entries_witness:
  "\<exists>C. Dot [[Finite False 1, Finite False 0], [Finite False 0, Finite False 1]]
            [[Finite False 5, Finite False 6], [Finite False 7, Finite False 8]] = Inr C \<and>
        length C = 2 \<and>
        C = [[Finite False 5, Finite False 6], [Finite False 7, Finite False 8]]"
proof -
  let ?A = "[[Finite False 1, Finite False 0], [Finite False 0, Finite False 1]]"
  let ?B = "[[Finite False 5, Finite False 6], [Finite False 7, Finite False 8]]"
  obtain C where C: "Dot ?A ?B = Inr C" "length C = length ?A"
    using Dot_entries [of ?A ?B 2] by auto
  from C(1) have "C = ?B"
    by (simp add: Dot_example)
  with C show ?thesis
    by simp
qed

text \<open>
  C7, counterexample to the claim as stated (every \<open>k\<close>, so also \<open>k = 0\<close>): for the
  1 by 0 Grid \<open>[[]]\<close> and the Grid \<open>[]\<close> of no rows, \<open>Dot\<close> panics instead of returning
  the 1 by 0 Grid.
\<close>

theorem Dot_entries_counterexample:
  "Dot [[]] [] = Inl IndexOutOfRange"
  by (simp add: Dot_def)

section \<open>Reusing a reducer\<close>

lemma fold_indices:
  "fold (\<lambda>j a. h a (row ! j)) [0..<length row] a = foldl h a row"
proof -
  have "fold (\<lambda>j a. h a (row ! j)) [0..<length row] a
        = fold (\<lambda>x a. h a x) (map ((!) row) [0..<length row]) a"
    by (simp add: fold_map comp_def)
  then show ?thesis
    by (simp add: map_nth foldl_conv_fold)
qed

lemma call_row_loop:
  assumes "\<And>a x. snd (g (a, x)) = x"
  shows "for_range js (\<lambda>j (a, m).
           (case g (a, m ! i ! j) of
              (a', x') \<Rightarrow> ((a', m[i := (m ! i)[j := x']]), None))) (a, m)
         = ((fold (\<lambda>j a. fst (g (a, m ! i ! j))) js a, m), None)"
proof (induction js arbitrary: a)
  case Nil
  then show ?case by simp
next
  case (Cons j js)
  obtain a' x' where g: "g (a, m ! i ! j) = (a', x')"
    by (cases "g (a, m ! i ! j)")
  with assms [of a "m ! i ! j"] have "x' = m ! i ! j" by simp
  with g Cons.IH [of a'] show ?case by simp
qed

lemma call_row:
  assumes "\<And>a x. snd (g (a, x)) = x"
  shows "for_range [0..<length (m ! i)] (\<lambda>j (a, m).
           (case g (a, m ! i ! j) of
              (a', x') \<Rightarrow> ((a', m[i := (m ! i)[j := x']]), None))) (a, m)
         = ((foldl (\<lambda>a x. fst (g (a, x))) a (m ! i), m), None)"
  unfolding call_row_loop [of g, OF assms]
  using fold_indices [of "\<lambda>a x. fst (g (a, x))" "m ! i" a] by simp

lemma call_rows:
  "for_range is (\<lambda>i (a, m). ((foldl h a (m ! i), m), None)) (a, m)
   = ((fold (\<lambda>i a. foldl h a (m ! i)) is a, m), None)"
  by (induction "is" arbitrary: a) simp_all

lemma fold_rows:
  "fold (\<lambda>i a. foldl h a (m ! i)) [0..<length m] a = foldl h a (concat m)"
proof -
  have "fold (\<lambda>i a. foldl h a (m ! i)) [0..<length m] a
        = fold (\<lambda>row a. foldl h a row) (map ((!) m) [0..<length m]) a"
    by (simp add: fold_map comp_def)
  also have "\<dots> = fold (\<lambda>row a. foldl h a row) m a"
    by (simp add: map_nth)
  also have "\<dots> = foldl h a (concat m)"
    by (induction m arbitrary: a) simp_all
  finally show ?thesis .
qed

lemma call_preserving:
  assumes "\<And>a x. snd (f red (a, x)) = x"
  shows "call red m =
           (foldl (\<lambda>a x. fst (f red (a, x))) (initialValue red) (concat m),
            red\<lparr>initialValue := foldl (\<lambda>a x. fst (f red (a, x))) (initialValue red) (concat m)\<rparr>,
            m)"
proof -
  let ?h = "\<lambda>a x. fst (f red (a, x))"
  have "(\<lambda>i (a, m).
             for_range [0..<length (m ! i)] (\<lambda>j (a, m).
               (case f red (a, m ! i ! j) of
                  (a', x') \<Rightarrow> ((a', m[i := (m ! i)[j := x']]), None))) (a, m))
        = (\<lambda>i (a, m). ((foldl ?h a (m ! i), m), None))"
    by (simp add: fun_eq_iff call_row [of "f red", OF assms])
  then show ?thesis
    by (simp add: call_def call_rows fold_rows)
qed

lemma add_into_keeps:
  "snd (add_into (a, x)) = x" "fst (add_into (a, x)) = fadd a x"
  by (simp_all add: add_into_def)

lemma sixteen_twos:
  "foldl fadd fzero (concat (replicate 4 (replicate 4 (Finite False 2)))) = Finite False 32"
  "foldl fadd (Finite False 32) (concat (replicate 4 (replicate 4 (Finite False 2)))) = Finite False 64"
  by code_simp+

text \<open>
  C1, at the failing input.  \<open>sum := NewReducer(0, func(i, j) { *i += *j })\<close> and the
  4 by 4 Grid of \<open>2.0\<close> of the comment: the first call \<open>sum(m)\<close> returns \<open>32.0\<close> and
  leaves the captured \<open>initialValue\<close> at \<open>32.0\<close>, as if the reducer had been made with
  that initial value; the second call \<open>sum(m)\<close> on the same, unchanged Grid starts from
  there and returns \<open>64.0\<close>.
\<close>

theorem NewReducer_second_call:
  "call (NewReducer fzero add_into) (replicate 4 (replicate 4 (Finite False 2)))
     = (Finite False 32, NewReducer (Finite False 32) add_into,
        replicate 4 (replicate 4 (Finite False 2))) \<and>
   call (NewReducer (Finite False 32) add_into) (replicate 4 (replicate 4 (Finite False 2)))
     = (Finite False 64, NewReducer (Finite False 64) add_into,
        replicate 4 (replicate 4 (Finite False 2)))"
proof -
  have "call (NewReducer a add_into) m
        = (foldl fadd a (concat m), NewReducer (foldl fadd a (concat m)) add_into, m)" for a m
    using call_preserving [of "NewReducer a add_into" m]
    by (simp add: NewReducer_def add_into_keeps)
  then show ?thesis
    by (simp only: sixteen_twos)
qed

section \<open>What the kernels leave in shared storage\<close>

lemma for_range_invariant:
  assumes "I 0 s"
    and "\<And>i t. i < n \<Longrightarrow> I i t \<Longrightarrow> \<exists>t'. body i t = (t', None) \<and> I (Suc i) t'"
  shows "\<exists>s'. for_range [0..<n] body s = (s', None) \<and> I n s'"
proof -
  have "k \<le> n \<Longrightarrow> \<exists>s'. for_range [0..<k] body s = (s', None) \<and> I k s'" for k
  proof (induction k)
    case 0
    then show ?case using assms(1) by simp
  next
    case (Suc k)
    then obtain t where t: "for_range [0..<k] body s = (t, None)" "I k t"
      by auto
    from assms(2) [of k t] Suc.prems t(2) obtain t' where "body k t = (t', None)" "I (Suc k) t'"
      by auto
    with t(1) show ?case
      by (simp add: for_range_append)
  qed
  then show ?thesis by simp
qed

lemma apart_cells:
  "apart s t \<Longrightarrow> a < len s \<Longrightarrow> b < len t \<Longrightarrow> ptr s + a \<noteq> ptr t + b"
  by (auto simp: apart_def)

lemma apart_sym: "apart s t \<Longrightarrow> apart t s"
  by (auto simp: apart_def)

lemma separate_nth:
  "separate ss \<Longrightarrow> i < k \<Longrightarrow> k < length ss \<Longrightarrow> apart (ss ! i) (ss ! k)"
proof (induction ss arbitrary: i k)
  case Nil
  then show ?case by simp
next
  case (Cons s ss)
  show ?case
  proof (cases i)
    case 0
    with Cons.prems show ?thesis
      by (cases k) auto
  next
    case (Suc i')
    with Cons.prems obtain k' where "k = Suc k'" "i' < k'" "k' < length ss"
      by (cases k) auto
    with Cons Suc show ?thesis by simp
  qed
qed

lemma separate_rows:
  assumes "separate ss" and "i < length ss" and "k < length ss" and "i \<noteq> k"
  shows "apart (ss ! i) (ss ! k)"
proof (cases "i < k")
  case True
  with assms show ?thesis by (simp add: separate_nth)
next
  case False
  with assms have "k < i" by simp
  with assms have "apart (ss ! k) (ss ! i)" by (simp add: separate_nth)
  then show ?thesis by (rule apart_sym)
qed

lemma row_pass:
  assumes "n \<le> len s"
    and "\<And>j \<tau>. j < n \<Longrightarrow> (\<forall>a. (\<forall>j<len s. a \<noteq> ptr s + j) \<longrightarrow> \<tau> a = \<sigma> a) \<Longrightarrow> h j \<tau> = y j"
  shows "\<exists>\<tau>. for_range [0..<n] (\<lambda>j \<tau>. modify s j (\<lambda>x. opr x (h j \<tau>)) \<tau>) \<sigma> = (\<tau>, None) \<and>
           (\<forall>j<n. \<tau> (ptr s + j) = opr (\<sigma> (ptr s + j)) (y j)) \<and>
           (\<forall>a. (\<forall>j<n. a \<noteq> ptr s + j) \<longrightarrow> \<tau> a = \<sigma> a)"
proof (rule for_range_invariant)
  show "(\<forall>j<0. \<sigma> (ptr s + j) = opr (\<sigma> (ptr s + j)) (y j)) \<and>
        (\<forall>a. (\<forall>j<0. a \<noteq> ptr s + j) \<longrightarrow> \<sigma> a = \<sigma> a)"
    by simp
next
  fix k \<tau>
  assume k: "k < n"
    and inv: "(\<forall>j<k. \<tau> (ptr s + j) = opr (\<sigma> (ptr s + j)) (y j)) \<and>
              (\<forall>a. (\<forall>j<k. a \<noteq> ptr s + j) \<longrightarrow> \<tau> a = \<sigma> a)"
  have outside: "\<forall>a. (\<forall>j<len s. a \<noteq> ptr s + j) \<longrightarrow> \<tau> a = \<sigma> a"
    using inv k assms(1) by auto
  have h: "h k \<tau> = y k"
    using k outside by (rule assms(2))
  have cell: "\<tau> (ptr s + k) = \<sigma> (ptr s + k)"
    using inv by simp
  let ?\<tau> = "\<tau>(ptr s + k := opr (\<sigma> (ptr s + k)) (y k))"
  have "modify s k (\<lambda>x. opr x (h k \<tau>)) \<tau> = (?\<tau>, None)"
    using k assms(1) by (simp add: modify_def h cell)
  moreover have "\<forall>j<Suc k. ?\<tau> (ptr s + j) = opr (\<sigma> (ptr s + j)) (y j)"
    using inv by (auto simp: less_Suc_eq)
  moreover have "\<forall>a. (\<forall>j<Suc k. a \<noteq> ptr s + j) \<longrightarrow> ?\<tau> a = \<sigma> a"
    using inv by auto
  ultimately show "\<exists>t'. modify s k (\<lambda>x. opr x (h k \<tau>)) \<tau> = (t', None) \<and>
           ((\<forall>j<Suc k. t' (ptr s + j) = opr (\<sigma> (ptr s + j)) (y j)) \<and>
            (\<forall>a. (\<forall>j<Suc k. a \<noteq> ptr s + j) \<longrightarrow> t' a = \<sigma> a))"
    by blast
qed

lemma rows_pass:
  assumes sep: "separate m"
    and step: "\<And>i \<tau>. i < length m \<Longrightarrow> (\<forall>a. \<not> written m i a \<longrightarrow> \<tau> a = \<sigma> a) \<Longrightarrow>
        \<exists>\<tau>'. body i \<tau> = (\<tau>', None) \<and>
             (\<forall>j<len (m ! i). \<tau>' (ptr (m ! i) + j) = F i j) \<and>
             (\<forall>a. (\<forall>j<len (m ! i). a \<noteq> ptr (m ! i) + j) \<longrightarrow> \<tau>' a = \<tau> a)"
  shows "\<exists>\<tau>. for_range [0..<length m] body \<sigma> = (\<tau>, None) \<and>
           (\<forall>i<length m. \<forall>j<len (m ! i). \<tau> (ptr (m ! i) + j) = F i j) \<and>
           (\<forall>a. \<not> written m (length m) a \<longrightarrow> \<tau> a = \<sigma> a)"
proof (rule for_range_invariant)
  show "(\<forall>i<0. \<forall>j<len (m ! i). \<sigma> (ptr (m ! i) + j) = F i j) \<and>
        (\<forall>a. \<not> written m 0 a \<longrightarrow> \<sigma> a = \<sigma> a)"
    by simp
next
  fix k \<tau>
  assume k: "k < length m"
    and inv: "(\<forall>i<k. \<forall>j<len (m ! i). \<tau> (ptr (m ! i) + j) = F i j) \<and>
              (\<forall>a. \<not> written m k a \<longrightarrow> \<tau> a = \<sigma> a)"
  from step [OF k] inv obtain \<tau>' where \<tau>': "body k \<tau> = (\<tau>', None)"
    and new: "\<forall>j<len (m ! k). \<tau>' (ptr (m ! k) + j) = F k j"
    and old: "\<forall>a. (\<forall>j<len (m ! k). a \<noteq> ptr (m ! k) + j) \<longrightarrow> \<tau>' a = \<tau> a"
    by blast
  have "\<forall>i<Suc k. \<forall>j<len (m ! i). \<tau>' (ptr (m ! i) + j) = F i j"
  proof (intro allI impI)
    fix i j
    assume i: "i < Suc k" and j: "j < len (m ! i)"
    show "\<tau>' (ptr (m ! i) + j) = F i j"
    proof (cases "i = k")
      case True
      with new j show ?thesis by simp
    next
      case False
      with i k have "apart (m ! i) (m ! k)"
        by (intro separate_rows [OF sep]) simp_all
      then have "\<forall>j'<len (m ! k). ptr (m ! i) + j \<noteq> ptr (m ! k) + j'"
        using j by (auto dest: apart_cells)
      with old have "\<tau>' (ptr (m ! i) + j) = \<tau> (ptr (m ! i) + j)"
        by simp
      with inv i j False show ?thesis by simp
    qed
  qed
  moreover have "\<forall>a. \<not> written m (Suc k) a \<longrightarrow> \<tau>' a = \<sigma> a"
  proof (intro allI impI)
    fix a
    assume a: "\<not> written m (Suc k) a"
    then have "\<forall>j<len (m ! k). a \<noteq> ptr (m ! k) + j" and "\<not> written m k a"
      by (auto simp: written_def less_Suc_eq)
    with old inv show "\<tau>' a = \<sigma> a" by simp
  qed
  ultimately show "\<exists>t'. body k \<tau> = (t', None) \<and>
           ((\<forall>i<Suc k. \<forall>j<len (m ! i). t' (ptr (m ! i) + j) = F i j) \<and>
            (\<forall>a. \<not> written m (Suc k) a \<longrightarrow> t' a = \<sigma> a))"
    using \<tau>' by blast
qed

lemma unwritten_row:
  assumes "separate m" and "i < length m" and "j < len (m ! i)"
  shows "\<not> written m i (ptr (m ! i) + j)"
proof
  assume "written m i (ptr (m ! i) + j)"
  then obtain i' j' where "i' < i" "j' < len (m ! i')" "ptr (m ! i) + j = ptr (m ! i') + j'"
    by (auto simp: written_def)
  moreover from this assms have "apart (m ! i) (m ! i')"
    by (intro separate_rows) simp_all
  ultimately show False
    using assms(3) by (auto dest: apart_cells)
qed

lemma unwritten_operand:
  assumes "\<forall>s\<in>set m. apart v s" and "k \<le> length m" and "j < len v"
  shows "\<not> written m k (ptr v + j)"
proof
  assume "written m k (ptr v + j)"
  then obtain i j' where i: "i < k" "j' < len (m ! i)" "ptr v + j = ptr (m ! i) + j'"
    by (auto simp: written_def)
  with assms(1,2) have "apart v (m ! i)" by simp
  with assms(3) i show False
    by (auto dest: apart_cells)
qed

lemma scalar_kernel_store_separate:
  assumes "separate m"
  shows "\<exists>\<tau>. scalar_kernel_store opr m v \<sigma> = (\<tau>, None) \<and>
           (\<forall>i<length m. \<forall>j<len (m ! i). \<tau> (ptr (m ! i) + j) = opr (\<sigma> (ptr (m ! i) + j)) v) \<and>
           (\<forall>a. \<not> written m (length m) a \<longrightarrow> \<tau> a = \<sigma> a)"
  unfolding scalar_kernel_store_def
proof (rule rows_pass [OF assms])
  fix i \<tau>
  assume i: "i < length m" and unw: "\<forall>a. \<not> written m i a \<longrightarrow> \<tau> a = \<sigma> a"
  from row_pass [where n = "len (m ! i)" and s = "m ! i" and h = "\<lambda>j \<tau>. v" and \<sigma> = \<tau>
      and y = "\<lambda>j. v" and opr = opr]
  obtain \<tau>' where \<tau>': "for_range [0..<len (m ! i)] (\<lambda>j. modify (m ! i) j (\<lambda>x. opr x v)) \<tau> = (\<tau>', None)"
    and new: "\<forall>j<len (m ! i). \<tau>' (ptr (m ! i) + j) = opr (\<tau> (ptr (m ! i) + j)) v"
    and old: "\<forall>a. (\<forall>j<len (m ! i). a \<noteq> ptr (m ! i) + j) \<longrightarrow> \<tau>' a = \<tau> a"
    by auto
  have "\<forall>j<len (m ! i). \<tau> (ptr (m ! i) + j) = \<sigma> (ptr (m ! i) + j)"
    using unw unwritten_row [OF assms i] by simp
  with new have "\<forall>j<len (m ! i). \<tau>' (ptr (m ! i) + j) = opr (\<sigma> (ptr (m ! i) + j)) v"
    by simp
  with \<tau>' old
  show "\<exists>\<tau>'. for_range [0..<len (m ! i)] (\<lambda>j. modify (m ! i) j (\<lambda>x. opr x v)) \<tau> = (\<tau>', None) \<and>
          (\<forall>j<len (m ! i). \<tau>' (ptr (m ! i) + j) = opr (\<sigma> (ptr (m ! i) + j)) v) \<and>
          (\<forall>a. (\<forall>j<len (m ! i). a \<noteq> ptr (m ! i) + j) \<longrightarrow> \<tau>' a = \<tau> a)"
    by blast
qed

lemma vec_kernel_store_separate:
  assumes sep: "separate (v # m)" and lens: "\<forall>s\<in>set m. len s = len v"
  shows "\<exists>\<tau>. vec_kernel_store opr m v \<sigma> = (\<tau>, None) \<and>
           (\<forall>i<length m. \<forall>j<len (m ! i).
              \<tau> (ptr (m ! i) + j) = opr (\<sigma> (ptr (m ! i) + j)) (\<sigma> (ptr v + j))) \<and>
           (\<forall>a. \<not> written m (length m) a \<longrightarrow> \<tau> a = \<sigma> a)"
  unfolding vec_kernel_store_def
proof (rule rows_pass)
  show "separate m" using sep by simp
next
  fix i \<tau>
  assume i: "i < length m" and unw: "\<forall>a. \<not> written m i a \<longrightarrow> \<tau> a = \<sigma> a"
  have m: "separate m" and v: "\<forall>s\<in>set m. apart v s"
    using sep by simp_all
  have li: "len (m ! i) = len v"
    using lens i by simp
  have av: "apart v (m ! i)"
    using v i by simp
  have "\<exists>\<tau>'. for_range [0..<len v] (\<lambda>j \<tau>. modify (m ! i) j (\<lambda>x. opr x (\<tau> (ptr v + j))) \<tau>) \<tau> = (\<tau>', None) \<and>
           (\<forall>j<len v. \<tau>' (ptr (m ! i) + j) = opr (\<tau> (ptr (m ! i) + j)) (\<tau> (ptr v + j))) \<and>
           (\<forall>a. (\<forall>j<len v. a \<noteq> ptr (m ! i) + j) \<longrightarrow> \<tau>' a = \<tau> a)"
  proof (rule row_pass)
    show "len v \<le> len (m ! i)" using li by simp
  next
    fix j \<tau>'
    assume j: "j < len v"
      and "\<forall>a. (\<forall>j<len (m ! i). a \<noteq> ptr (m ! i) + j) \<longrightarrow> \<tau>' a = \<tau> a"
    moreover have "\<forall>j'<len (m ! i). ptr v + j \<noteq> ptr (m ! i) + j'"
      using av j by (auto dest: apart_cells)
    ultimately show "\<tau>' (ptr v + j) = \<tau> (ptr v + j)"
      by simp
  qed
  then obtain \<tau>' where \<tau>': "for_range [0..<len v] (\<lambda>j \<tau>. modify (m ! i) j (\<lambda>x. opr x (\<tau> (ptr v + j))) \<tau>) \<tau> = (\<tau>', None)"
    and new: "\<forall>j<len v. \<tau>' (ptr (m ! i) + j) = opr (\<tau> (ptr (m ! i) + j)) (\<tau> (ptr v + j))"
    and old: "\<forall>a. (\<forall>j<len v. a \<noteq> ptr (m ! i) + j) \<longrightarrow> \<tau>' a = \<tau> a"
    by blast
  have "\<forall>j<len v. \<tau> (ptr (m ! i) + j) = \<sigma> (ptr (m ! i) + j)"
    using unw unwritten_row [OF m i] li by simp
  moreover have "\<forall>j<len v. \<tau> (ptr v + j) = \<sigma> (ptr v + j)"
    using unw unwritten_operand [OF v, of i] i by simp
  ultimately have "\<forall>j<len (m ! i). \<tau>' (ptr (m ! i) + j) = opr (\<sigma> (ptr (m ! i) + j)) (\<sigma> (ptr v + j))"
    using new li by simp
  with \<tau>' old li
  show "\<exists>\<tau>'. for_range [0..<len v] (\<lambda>j \<tau>. modify (m ! i) j (\<lambda>x. opr x (\<tau> (ptr v + j))) \<tau>) \<tau> = (\<tau>', None) \<and>
          (\<forall>j<len (m ! i). \<tau>' (ptr (m ! i) + j) = opr (\<sigma> (ptr (m ! i) + j)) (\<sigma> (ptr v + j))) \<and>
          (\<forall>a. (\<forall>j<len (m ! i). a \<noteq> ptr (m ! i) + j) \<longrightarrow> \<tau>' a = \<tau> a)"
    by auto
qed

lemma vec_kernel_store_grid:
  assumes sep: "separate (v # m)" and lens: "\<forall>s\<in>set m. len s = len v"
  shows "\<exists>\<tau>. vec_kernel_store opr m v \<sigma> = (\<tau>, None) \<and>
           grid_of \<tau> m = map (\<lambda>row. map2 opr row (row_of \<sigma> v)) (grid_of \<sigma> m) \<and>
           row_of \<tau> v = row_of \<sigma> v"
proof -
  from vec_kernel_store_separate [OF assms, of opr \<sigma>]
  obtain \<tau> where \<tau>: "vec_kernel_store opr m v \<sigma> = (\<tau>, None)"
    and new: "\<forall>i<length m. \<forall>j<len (m ! i).
              \<tau> (ptr (m ! i) + j) = opr (\<sigma> (ptr (m ! i) + j)) (\<sigma> (ptr v + j))"
    and old: "\<forall>a. \<not> written m (length m) a \<longrightarrow> \<tau> a = \<sigma> a"
    by blast
  have "grid_of \<tau> m = map (\<lambda>row. map2 opr row (row_of \<sigma> v)) (grid_of \<sigma> m)"
    unfolding grid_of_def
  proof (rule nth_equalityI)
    fix i
    assume "i < length (map (row_of \<tau>) m)"
    then have i: "i < length m" by simp
    then have li: "len (m ! i) = len v"
      using lens by simp
    have "row_of \<tau> (m ! i) = map2 opr (row_of \<sigma> (m ! i)) (row_of \<sigma> v)"
      using new i li by (intro nth_equalityI) (simp_all add: row_of_def)
    then show "map (row_of \<tau>) m ! i
               = map (\<lambda>row. map2 opr row (row_of \<sigma> v)) (map (row_of \<sigma>) m) ! i"
      using i by simp
  qed simp
  moreover have "row_of \<tau> v = row_of \<sigma> v"
  proof -
    have "\<forall>s\<in>set m. apart v s" using sep by simp
    then have "\<forall>j<len v. \<not> written m (length m) (ptr v + j)"
      using unwritten_operand [of m v "length m"] by simp
    with old show ?thesis
      by (simp add: row_of_def)
  qed
  ultimately show ?thesis
    using \<tau> by blast
qed

lemma scalar_kernel_store_grid:
  assumes "separate m"
  shows "\<exists>\<tau>. scalar_kernel_store opr m v \<sigma> = (\<tau>, None) \<and>
           grid_of \<tau> m = map (map (\<lambda>x. opr x v)) (grid_of \<sigma> m)"
proof -
  from scalar_kernel_store_separate [OF assms, of opr v \<sigma>]
  obtain \<tau> where \<tau>: "scalar_kernel_store opr m v \<sigma> = (\<tau>, None)"
    and new: "\<forall>i<length m. \<forall>j<len (m ! i). \<tau> (ptr (m ! i) + j) = opr (\<sigma> (ptr (m ! i) + j)) v"
    by blast
  have "grid_of \<tau> m = map (map (\<lambda>x. opr x v)) (grid_of \<sigma> m)"
    unfolding grid_of_def
  proof (rule nth_equalityI)
    fix i
    assume "i < length (map (row_of \<tau>) m)"
    then have i: "i < length m" by simp
    have "row_of \<tau> (m ! i) = map (\<lambda>x. opr x v) (row_of \<sigma> (m ! i))"
      using new i by (intro nth_equalityI) (simp_all add: row_of_def)
    then show "map (row_of \<tau>) m ! i = map (map (\<lambda>x. opr x v)) (map (row_of \<sigma>) m) ! i"
      using i by simp
  qed simp
  with \<tau> show ?thesis by blast
qed

text \<open>
  On separate windows the kernels on the store leave what the kernels on values compute:
  this is the sense in which the first model describes the program.
\<close>

lemma scalar_kernel_store_refines:
  assumes "separate m"
  shows "\<exists>\<tau>. scalar_kernel_store opr m v \<sigma> = (\<tau>, None) \<and>
           (grid_of \<tau> m, None) = scalar_kernel opr (grid_of \<sigma> m) v"
  using scalar_kernel_store_grid [OF assms, of opr v \<sigma>] by (simp add: scalar_kernel_eq)

lemma vec_kernel_store_refines:
  assumes "separate (v # m)" and "\<forall>s\<in>set m. len s = len v"
  shows "\<exists>\<tau>. vec_kernel_store opr m v \<sigma> = (\<tau>, None) \<and>
           (grid_of \<tau> m, None) = vec_kernel opr (grid_of \<sigma> m) (row_of \<sigma> v)"
proof -
  have "\<forall>row\<in>set (grid_of \<sigma> m). length row = length (row_of \<sigma> v)"
    using assms(2) by (simp add: grid_of_def row_of_def)
  then have "vec_kernel opr (grid_of \<sigma> m) (row_of \<sigma> v)
             = (map (\<lambda>row. map2 opr row (row_of \<sigma> v)) (grid_of \<sigma> m), None)"
    by (rule vec_kernel_exact)
  moreover from vec_kernel_store_grid [OF assms, of opr \<sigma>]
  obtain \<tau> where "vec_kernel_store opr m v \<sigma> = (\<tau>, None)"
    and "grid_of \<tau> m = map (\<lambda>row. map2 opr row (row_of \<sigma> v)) (grid_of \<sigma> m)"
    by blast
  ultimately show ?thesis
    by simp
qed

section \<open>Scalar addition and subtraction\<close>

text \<open>
  C5, as the code has it.  For every Grid \<open>m\<close>, of any shape, whose rows share no
  storage, and every scalar \<open>s\<close>: \<open>AddScalar(m, s)\<close> followed by \<open>SubScalar(m, s)\<close> never
  panics and leaves \<open>(x + s) - s\<close>, computed in float64 arithmetic, where \<open>x\<close> was.  That
  value equals \<open>x\<close> (Go's \<open>==\<close>) at every position where \<open>x\<close> and \<open>s\<close> are finite and
  \<open>x + s\<close> is computed exactly.
\<close>

theorem AddScalar_then_SubScalar:
  assumes "separate m"
  shows "\<exists>\<sigma>1 \<sigma>2. AddScalar_store m s \<sigma> = (\<sigma>1, None) \<and> SubScalar_store m s \<sigma>1 = (\<sigma>2, None) \<and>
           grid_of \<sigma>2 m = map (map (\<lambda>x. fsub (fadd x s) s)) (grid_of \<sigma> m) \<and>
           (\<forall>i<length m. \<forall>j<len (m ! i).
              exact_add (grid_of \<sigma> m ! i ! j) s \<longrightarrow>
              feq (grid_of \<sigma>2 m ! i ! j) (grid_of \<sigma> m ! i ! j))"
proof -
  from scalar_kernel_store_grid [OF assms, of fadd s \<sigma>]
  obtain \<sigma>1 where 1: "AddScalar_store m s \<sigma> = (\<sigma>1, None)"
    and g1: "grid_of \<sigma>1 m = map (map (\<lambda>x. fadd x s)) (grid_of \<sigma> m)"
    by (auto simp: AddScalar_store_def)
  from scalar_kernel_store_grid [OF assms, of fsub s \<sigma>1]
  obtain \<sigma>2 where 2: "SubScalar_store m s \<sigma>1 = (\<sigma>2, None)"
    and g2: "grid_of \<sigma>2 m = map (map (\<lambda>x. fsub x s)) (grid_of \<sigma>1 m)"
    by (auto simp: SubScalar_store_def)
  have g: "grid_of \<sigma>2 m = map (map (\<lambda>x. fsub (fadd x s) s)) (grid_of \<sigma> m)"
    unfolding g2 g1 by (simp add: comp_def)
  have "\<forall>i<length m. \<forall>j<len (m ! i).
          exact_add (grid_of \<sigma> m ! i ! j) s \<longrightarrow>
          feq (grid_of \<sigma>2 m ! i ! j) (grid_of \<sigma> m ! i ! j)"
    unfolding g by (simp add: grid_of_def row_of_def exact_add_restores)
  with 1 2 g show ?thesis by blast
qed

text \<open>
  C5, witness: the Grid \<open>[[1.0]]\<close> and the scalar \<open>2.0\<close>, where \<open>1.0 + 2.0\<close> is exact
  and the element is restored.
\<close>

theorem AddScalar_then_SubScalar_witness:
  "separate [\<lparr>ptr = 0, len = 1\<rparr>] \<and> exact_add (Finite False 1) (Finite False 2) \<and>
   (\<exists>\<sigma>1 \<sigma>2. AddScalar_store [\<lparr>ptr = 0, len = 1\<rparr>] (Finite False 2) (store_of [Finite False 1]) = (\<sigma>1, None) \<and>
      SubScalar_store [\<lparr>ptr = 0, len = 1\<rparr>] (Finite False 2) \<sigma>1 = (\<sigma>2, None) \<and>
      feq (grid_of \<sigma>2 [\<lparr>ptr = 0, len = 1\<rparr>] ! 0 ! 0) (Finite False 1))"
proof -
  have h: "separate [\<lparr>ptr = 0, len = 1\<rparr>]" by simp
  have e: "exact_add (grid_of (store_of [Finite False 1]) [\<lparr>ptr = 0, len = 1\<rparr>] ! 0 ! 0) (Finite False 2)"
    using exact_add_1_2 by (simp add: grid_of_def row_of_def store_of_def)
  have v: "grid_of (store_of [Finite False 1]) [\<lparr>ptr = 0, len = 1\<rparr>] ! 0 ! 0 = Finite False 1"
    by (simp add: grid_of_def row_of_def store_of_def)
  from AddScalar_then_SubScalar [OF h, of "Finite False 2" "store_of [Finite False 1]"] e
  have "\<exists>\<sigma>1 \<sigma>2. AddScalar_store [\<lparr>ptr = 0, len = 1\<rparr>] (Finite False 2) (store_of [Finite False 1]) = (\<sigma>1, None) \<and>
      SubScalar_store [\<lparr>ptr = 0, len = 1\<rparr>] (Finite False 2) \<sigma>1 = (\<sigma>2, None) \<and>
      feq (grid_of \<sigma>2 [\<lparr>ptr = 0, len = 1\<rparr>] ! 0 ! 0)
          (grid_of (store_of [Finite False 1]) [\<lparr>ptr = 0, len = 1\<rparr>] ! 0 ! 0)"
    by fastforce
  with h exact_add_1_2 show ?thesis
    unfolding v by blast
qed

text \<open>
  C5, counterexample to the claim as stated (every element restored exactly, whatever the
  contents): on \<open>[[1.0]]\<close>, adding and subtracting \<open>+Inf\<close> leaves NaN, and adding and
  subtracting \<open>2^53\<close> leaves \<open>0.0\<close>, since \<open>1 + 2^53\<close> rounds to \<open>2^53\<close>.  On the Grid
  whose two rows are the same window on one cell holding \<open>1.0\<close>, each pass visits the
  cell twice: adding and subtracting \<open>2^52\<close> leaves \<open>0.0\<close>, though \<open>1 + 2^52\<close> is exact.
\<close>

theorem AddScalar_then_SubScalar_counterexample:
  "grid_of (fst (SubScalar_store [\<lparr>ptr = 0, len = 1\<rparr>] (Infty False)
             (fst (AddScalar_store [\<lparr>ptr = 0, len = 1\<rparr>] (Infty False) (store_of [Finite False 1])))))
     [\<lparr>ptr = 0, len = 1\<rparr>] = [[NaN]] \<and>
   grid_of (fst (SubScalar_store [\<lparr>ptr = 0, len = 1\<rparr>] (Finite False (2 ^ 53))
             (fst (AddScalar_store [\<lparr>ptr = 0, len = 1\<rparr>] (Finite False (2 ^ 53)) (store_of [Finite False 1])))))
     [\<lparr>ptr = 0, len = 1\<rparr>] = [[Finite False 0]] \<and>
   grid_of (fst (SubScalar_store [\<lparr>ptr = 0, len = 1\<rparr>, \<lparr>ptr = 0, len = 1\<rparr>] (Finite False (2 ^ 52))
             (fst (AddScalar_store [\<lparr>ptr = 0, len = 1\<rparr>, \<lparr>ptr = 0, len = 1\<rparr>] (Finite False (2 ^ 52))
                    (store_of [Finite False 1])))))
     [\<lparr>ptr = 0, len = 1\<rparr>, \<lparr>ptr = 0, len = 1\<rparr>] = [[Finite False 0], [Finite False 0]]"
  by code_simp

section \<open>Broadcasting a vector over the rows\<close>

text \<open>
  C4, as the code has it.  For every rectangular Grid \<open>m\<close> with \<open>c\<close> columns and every
  vector \<open>v\<close> of length exactly \<open>c\<close>, such that no two rows of \<open>m\<close> share storage and \<open>v\<close>
  shares storage with no row of \<open>m\<close>: each of \<open>AddVec\<close>, \<open>SubVec\<close>, \<open>MultVec\<close>, \<open>DivVec\<close>,
  and each of \<open>Add\<close>, \<open>Sub\<close>, \<open>Mult\<close>, \<open>Div\<close> called with a \<open>[]float64\<close> operand, returns
  without panic, leaves \<open>m[i][j]\<close> combined with \<open>v[j]\<close> at every position, both as they
  were before the call, and leaves \<open>v\<close> as it was: every row is combined with the same
  vector.
\<close>

theorem vector_kernels_broadcast:
  assumes "(K, opr) \<in> {(AddVec_store, fadd), (SubVec_store, fsub),
                         (MultVec_store, fmul), (DivVec_store, fdiv),
                         (\<lambda>m v. Add_store m (VectorArg v), fadd),
                         (\<lambda>m v. Sub_store m (VectorArg v), fsub),
                         (\<lambda>m v. Mult_store m (VectorArg v), fmul),
                         (\<lambda>m v. Div_store m (VectorArg v), fdiv)}"
    and "\<forall>s\<in>set m. len s = c" and "len v = c" and "separate (v # m)"
  shows "\<exists>\<tau>. K m v \<sigma> = (\<tau>, None) \<and>
           grid_of \<tau> m = map (\<lambda>row. map2 opr row (row_of \<sigma> v)) (grid_of \<sigma> m) \<and>
           row_of \<tau> v = row_of \<sigma> v"
proof -
  have "K m v \<sigma> = vec_kernel_store opr m v \<sigma>"
    using assms(1)
    by (auto simp: AddVec_store_def SubVec_store_def MultVec_store_def DivVec_store_def
        Add_store_def Sub_store_def Mult_store_def Div_store_def)
  moreover have "\<forall>s\<in>set m. len s = len v"
    using assms(2,3) by simp
  ultimately show ?thesis
    using vec_kernel_store_grid [OF assms(4), of opr \<sigma>] by simp
qed

lemma broadcast_example_sums:
  "map (\<lambda>row. map2 fadd row
          (row_of (store_of [Finite False 1, Finite False 2, Finite False 3, Finite False 4,
                             Finite False 10, Finite False 20]) \<lparr>ptr = 4, len = 2\<rparr>))
     (grid_of (store_of [Finite False 1, Finite False 2, Finite False 3, Finite False 4,
                         Finite False 10, Finite False 20])
        [\<lparr>ptr = 0, len = 2\<rparr>, \<lparr>ptr = 2, len = 2\<rparr>])
   = [[Finite False 11, Finite False 22], [Finite False 13, Finite False 24]]"
  by code_simp

text \<open>
  C4, witness: \<open>AddVec\<close> on the 2 by 2 Grid \<open>[[1, 2], [3, 4]]\<close> and the vector
  \<open>[10, 20]\<close>, three separate windows on one store.
\<close>

theorem vector_kernels_broadcast_witness:
  "separate [\<lparr>ptr = 4, len = 2\<rparr>, \<lparr>ptr = 0, len = 2\<rparr>, \<lparr>ptr = 2, len = 2\<rparr>] \<and>
   (\<exists>\<tau>. AddVec_store [\<lparr>ptr = 0, len = 2\<rparr>, \<lparr>ptr = 2, len = 2\<rparr>] \<lparr>ptr = 4, len = 2\<rparr>
          (store_of [Finite False 1, Finite False 2, Finite False 3, Finite False 4,
                     Finite False 10, Finite False 20]) = (\<tau>, None) \<and>
        grid_of \<tau> [\<lparr>ptr = 0, len = 2\<rparr>, \<lparr>ptr = 2, len = 2\<rparr>]
        = [[Finite False 11, Finite False 22], [Finite False 13, Finite False 24]])"
proof -
  let ?m = "[\<lparr>ptr = 0, len = 2\<rparr>, \<lparr>ptr = 2, len = 2\<rparr>]"
  let ?v = "\<lparr>ptr = 4, len = 2\<rparr>"
  let ?\<sigma> = "store_of [Finite False 1, Finite False 2, Finite False 3, Finite False 4,
                      Finite False 10, Finite False 20]"
  have h0: "(AddVec_store, fadd) \<in> {(AddVec_store, fadd), (SubVec_store, fsub),
                         (MultVec_store, fmul), (DivVec_store, fdiv),
                         (\<lambda>m v. Add_store m (VectorArg v), fadd),
                         (\<lambda>m v. Sub_store m (VectorArg v), fsub),
                         (\<lambda>m v. Mult_store m (VectorArg v), fmul),
                         (\<lambda>m v. Div_store m (VectorArg v), fdiv)}"
    by simp
  have h1: "\<forall>s\<in>set ?m. len s = 2" by simp
  have h2: "len ?v = 2" by simp
  have h3: "separate (?v # ?m)" by (simp add: apart_def)
  from vector_kernels_broadcast [OF h0 h1 h2 h3, of ?\<sigma>]
  obtain \<tau> where "AddVec_store ?m ?v ?\<sigma> = (\<tau>, None)"
    and "grid_of \<tau> ?m = map (\<lambda>row. map2 fadd row (row_of ?\<sigma> ?v)) (grid_of ?\<sigma> ?m)"
    by blast
  then have "AddVec_store ?m ?v ?\<sigma> = (\<tau>, None) \<and>
             grid_of \<tau> ?m = [[Finite False 11, Finite False 22], [Finite False 13, Finite False 24]]"
    by (simp only: broadcast_example_sums)
  with h3 show ?thesis by blast
qed

text \<open>
  C4, counterexample to the claim as stated (every vector of length \<open>c\<close>):
  \<open>MultVec(m, m[0])\<close> on \<open>m = [[2, 3], [4, 5]]\<close>.  The vector is the window of row 0;
  row 0 is squared to \<open>[4, 9]\<close> first, so row 1 is multiplied by \<open>[4, 9]\<close> and the call
  leaves \<open>[[4, 9], [16, 45]]\<close>, where combining every row with the vector as it was
  gives \<open>[[4, 9], [8, 15]]\<close>.  And \<open>AddVec(m, [10])\<close> on the Grid whose two rows are the
  same window on one cell holding \<open>1\<close>: the cell is visited once per row and the call
  leaves \<open>[[21], [21]]\<close>, not \<open>[[11], [11]]\<close>.
\<close>

theorem vector_kernels_broadcast_counterexample:
  "snd (MultVec_store [\<lparr>ptr = 0, len = 2\<rparr>, \<lparr>ptr = 2, len = 2\<rparr>] \<lparr>ptr = 0, len = 2\<rparr>
          (store_of [Finite False 2, Finite False 3, Finite False 4, Finite False 5])) = None \<and>
   grid_of (fst (MultVec_store [\<lparr>ptr = 0, len = 2\<rparr>, \<lparr>ptr = 2, len = 2\<rparr>] \<lparr>ptr = 0, len = 2\<rparr>
                  (store_of [Finite False 2, Finite False 3, Finite False 4, Finite False 5])))
     [\<lparr>ptr = 0, len = 2\<rparr>, \<lparr>ptr = 2, len = 2\<rparr>]
     = [[Finite False 4, Finite False 9], [Finite False 16, Finite False 45]] \<and>
   map (\<lambda>row. map2 fmul row
          (row_of (store_of [Finite False 2, Finite False 3, Finite False 4, Finite False 5])
             \<lparr>ptr = 0, len = 2\<rparr>))
     (grid_of (store_of [Finite False 2, Finite False 3, Finite False 4, Finite False 5])
        [\<lparr>ptr = 0, len = 2\<rparr>, \<lparr>ptr = 2, len = 2\<rparr>])
     = [[Finite False 4, Finite False 9], [Finite False 8, Finite False 15]] \<and>
   grid_of (fst (AddVec_store [\<lparr>ptr = 0, len = 1\<rparr>, \<lparr>ptr = 0, len = 1\<rparr>] \<lparr>ptr = 1, len = 1\<rparr>
                  (store_of [Finite False 1, Finite False 10])))
     [\<lparr>ptr = 0, len = 1\<rparr>, \<lparr>ptr = 0, len = 1\<rparr>]
     = [[Finite False 21], [Finite False 21]]"
  by code_simp

end
